theory Spec2Isabelle
  imports Main "HOL-Library.AList"
begin

section \<open>The weak-reference bridge of the runtime (WeakRef.cpp)\<close>

text \<open>
  The file WeakRef.cpp implements the script-visible constructor \<open>WeakRef\<close>, the two
  accessors \<open>get\<close> and \<open>clear\<close> installed on every holder, and the two weak callbacks
  the collector invokes. The code mutates three kinds of shared memory: engine objects (the
  holder and its hidden slot), natively allocated persistent handles, and natively allocated
  CallbackState records. Each is an explicit store here, and every C++ function is a state
  transformer that ends normally, throws a C++ exception, or crashes (undefined behaviour:
  a dereference of a null, dangling or empty pointer, or a second delete).
\<close>

subsection \<open>Values and engine objects\<close>

type_synonym addr = nat
type_synonym oid = nat

datatype val = Undefined | Null | Boolean bool | Number int | Text string | Object oid

fun IsObject :: "val \<Rightarrow> bool" where
  "IsObject (Object _) = True"
| "IsObject _ = False"

text \<open>The native callback behind a function object built from a FunctionTemplate.\<close>

datatype native_fn = GettertCallback_fn | ClearCallback_fn

text \<open>
  An engine object: its script-visible properties, the hidden value stored under the key
  \<open>V8StringConstants::GetTarget()\<close> (the only hidden key this file uses), and the native
  callback when the object is a function. The hidden value is an \<open>External\<close> wrapping a
  pointer to a persistent handle: \<open>None\<close> is "no hidden value was ever set",
  \<open>Some None\<close> is \<open>External::New(isolate, nullptr)\<close>, the absent sentinel, and
  \<open>Some (Some p)\<close> wraps the pointer \<open>p\<close>.
\<close>

record jsobject =
  props :: "(string \<times> val) list"
  hidden :: "addr option option"
  callee :: "native_fn option"

subsection \<open>Native heaps\<close>

text \<open>
  A native heap is a list of cells indexed by address; \<open>new\<close> appends a cell (so the
  address is fresh), \<open>delete\<close> empties it. Reading an address that was never allocated
  or was deleted gives \<open>None\<close>, which the operations below turn into a crash.
\<close>

type_synonym 'a heap = "'a option list"

definition heap_lookup :: "'a heap \<Rightarrow> addr \<Rightarrow> 'a option" where
  "heap_lookup h a = (if a < length h then h ! a else None)"

definition heap_new :: "'a \<Rightarrow> 'a heap \<Rightarrow> addr \<times> 'a heap" where
  "heap_new v h = (length h, h @ [Some v])"

definition heap_update :: "addr \<Rightarrow> 'a \<Rightarrow> 'a heap \<Rightarrow> 'a heap" where
  "heap_update a v h = h[a := Some v]"

definition heap_free :: "addr \<Rightarrow> 'a heap \<Rightarrow> 'a heap" where
  "heap_free a h = h[a := None]"

datatype weak_callback = WeakTargetCallback_fn | WeakHolderCallback_fn

text \<open>
  \<open>Persistent<Object>\<close>: the object it refers to (\<open>None\<close> after \<open>Reset()\<close>) and the weak
  registration made by \<open>SetWeak(parameter, callback)\<close>.
\<close>

record Persistent =
  referent :: "oid option"
  weak :: "(addr \<times> weak_callback) option"

text \<open>\<open>CallbackState\<close>: the two pointers to persistent handles; \<open>None\<close> is \<open>nullptr\<close>.\<close>

record CallbackState =
  target :: "addr option"
  holder :: "addr option"

datatype ObjectManager = TheObjectManager

text \<open>The controller object \<open>WeakRef\<close> with its three members.\<close>

record WeakRef =
  m_objectManager :: "ObjectManager option"
  m_poClearFunc :: "addr option"
  m_poGetterFunc :: "addr option"

subsection \<open>Exceptions, crashes and the world\<close>

datatype exn = NativeScriptException string | StdException string | OtherException

datatype abort = Throw exn | Crash

text \<open>
  The calls that leave this file for code that can throw: the object manager, the argument
  converter and the string constants of this runtime, and \<open>operator new\<close>. The engine's own
  API is built without exceptions.
\<close>

datatype extop = GetEmptyObject_op | ConvertToV8String_op | GetTarget_op | operator_new_op

text \<open>
  The world: the three stores, the engine's table of global handles, the log of every
  \<open>delete callbackState\<close> executed so far (newest first), the controller, the exception
  pending in the engine (set by \<open>ReThrowToV8\<close>), and the faults the environment injects:
  \<open>faults\<close> maps an outside call to the exception it raises, and is empty when nothing
  outside fails.

  A persistent is a C++ object that holds one global handle of the engine. \<open>global_handles\<close>
  lists the handles the engine has allocated and not got back, each named by the address of
  the persistent that was created with it. Only \<open>Reset()\<close> gives a handle back to the
  engine; \<open>delete\<close> frees the C++ object and leaves the engine's handle where it is (the
  destructor of \<open>Persistent\<close> does not reset).
\<close>

record world =
  objects :: "jsobject list"
  persistents :: "Persistent heap"
  global_handles :: "addr list"
  callback_states :: "CallbackState heap"
  deleted_states :: "addr list"
  thiz :: WeakRef
  pending_exception :: "string option"
  faults :: "(extop \<times> exn) list"

type_synonym 'a M = "world \<Rightarrow> (abort + 'a) \<times> world"

definition returnM :: "'a \<Rightarrow> 'a M" where
  "returnM x w = (Inr x, w)"

definition bindM :: "'a M \<Rightarrow> ('a \<Rightarrow> 'b M) \<Rightarrow> 'b M" where
  "bindM m f w = (case m w of (Inl a, w') \<Rightarrow> (Inl a, w') | (Inr x, w') \<Rightarrow> f x w')"

definition thenM :: "unit M \<Rightarrow> 'b M \<Rightarrow> 'b M" where
  "thenM m n = bindM m (\<lambda>_. n)"

definition throwM :: "exn \<Rightarrow> 'a M" where
  "throwM e w = (Inl (Throw e), w)"

definition crashM :: "'a M" where
  "crashM w = (Inl Crash, w)"

definition call_ext :: "extop \<Rightarrow> unit M" where
  "call_ext opn w = (case map_of (faults w) opn of
                       Some e \<Rightarrow> (Inl (Throw e), w)
                     | None \<Rightarrow> (Inr (), w))"

subsection \<open>The engine and runtime operations the file consumes\<close>

text \<open>
  Modelled from the spec: \<open>ObjectManager::GetEmptyObject\<close> is not in WeakRef.cpp; the
  spec says it allocates an empty, script-visible object. A null \<open>m_objectManager\<close>
  (the controller before \<open>Init\<close>) is a null dereference.
\<close>

definition GetEmptyObject :: "oid M" where
  "GetEmptyObject w =
     (case m_objectManager (thiz w) of
        None \<Rightarrow> (Inl Crash, w)
      | Some _ \<Rightarrow>
          bindM (call_ext GetEmptyObject_op)
            (\<lambda>_ w'. (Inr (length (objects w')),
                     w'\<lparr>objects := objects w' @ [\<lparr>props = [], hidden = None, callee = None\<rparr>]\<rparr>)) w)"

text \<open>\<open>FunctionTemplate::New(isolate, callback, data)->GetFunction()\<close>: a new function object.\<close>

definition GetFunction :: "native_fn \<Rightarrow> oid M" where
  "GetFunction f w =
     (Inr (length (objects w)),
      w\<lparr>objects := objects w @ [\<lparr>props = [], hidden = None, callee = Some f\<rparr>]\<rparr>)"

text \<open>
  \<open>new Persistent<T>(isolate, obj)\<close>: a strong handle to \<open>obj\<close> at a fresh address, with
  a new global handle of the engine.
\<close>

definition new_Persistent :: "oid \<Rightarrow> addr M" where
  "new_Persistent obj =
     thenM (call_ext operator_new_op)
       (\<lambda>w. (case heap_new \<lparr>referent = Some obj, weak = None\<rparr> (persistents w) of
               (p, h) \<Rightarrow> (Inr p, w\<lparr>global_handles := p # global_handles w, persistents := h\<rparr>)))"

text \<open>\<open>new CallbackState(poTarget, poHolder)\<close>.\<close>

definition new_CallbackState :: "addr \<Rightarrow> addr \<Rightarrow> addr M" where
  "new_CallbackState poTarget poHolder =
     thenM (call_ext operator_new_op)
       (\<lambda>w. (case heap_new \<lparr>target = Some poTarget, holder = Some poHolder\<rparr> (callback_states w) of
               (c, h) \<Rightarrow> (Inr c, w\<lparr>callback_states := h\<rparr>)))"

text \<open>Dereferencing a pointer to a persistent handle: null and dangling pointers crash.\<close>

definition deref_Persistent :: "addr option \<Rightarrow> Persistent M" where
  "deref_Persistent po w =
     (case po of
        None \<Rightarrow> (Inl Crash, w)
      | Some p \<Rightarrow> (case heap_lookup (persistents w) p of
                    None \<Rightarrow> (Inl Crash, w)
                  | Some per \<Rightarrow> (Inr per, w)))"

definition store_Persistent :: "addr option \<Rightarrow> Persistent \<Rightarrow> unit M" where
  "store_Persistent po per w =
     (case po of
        None \<Rightarrow> (Inl Crash, w)
      | Some p \<Rightarrow> (Inr (), w\<lparr>persistents := heap_update p per (persistents w)\<rparr>))"

text \<open>\<open>po->SetWeak(parameter, callback)\<close>: (re-)registers the weak callback on the handle.\<close>

definition SetWeak :: "addr option \<Rightarrow> addr \<Rightarrow> weak_callback \<Rightarrow> unit M" where
  "SetWeak po param cb =
     bindM (deref_Persistent po) (\<lambda>per. store_Persistent po (per\<lparr>weak := Some (param, cb)\<rparr>))"

text \<open>
  \<open>po->Reset()\<close>: the persistent gives its global handle back to the engine, and is empty
  afterwards: it refers to no object and has no weak registration.
\<close>

definition dispose_handle :: "addr option \<Rightarrow> unit M" where
  "dispose_handle po w =
     (case po of
        None \<Rightarrow> (Inl Crash, w)
      | Some p \<Rightarrow> (Inr (), w\<lparr>global_handles := removeAll p (global_handles w)\<rparr>))"

definition Reset :: "addr option \<Rightarrow> unit M" where
  "Reset po =
     bindM (deref_Persistent po) (\<lambda>per.
     thenM (dispose_handle po)
       (store_Persistent po (per\<lparr>referent := None, weak := None\<rparr>)))"

text \<open>
  \<open>delete po\<close> for a persistent: the C++ object is freed, the engine's table is not touched.
  Deleting a null pointer does nothing.
\<close>

definition delete_Persistent :: "addr option \<Rightarrow> unit M" where
  "delete_Persistent po w =
     (case po of
        None \<Rightarrow> (Inr (), w)
      | Some p \<Rightarrow> (case heap_lookup (persistents w) p of
                    None \<Rightarrow> (Inl Crash, w)
                  | Some _ \<Rightarrow> (Inr (), w\<lparr>persistents := heap_free p (persistents w)\<rparr>)))"

text \<open>\<open>Local<T>::New(isolate, *po)\<close>: a local handle, empty (\<open>None\<close>) when the persistent is.\<close>

definition Local_New :: "addr option \<Rightarrow> (oid option) M" where
  "Local_New po = bindM (deref_Persistent po) (\<lambda>per. returnM (referent per))"

text \<open>Reading a field of \<open>*callbackState\<close>; a freed record is a use after free.\<close>

definition read_state :: "addr \<Rightarrow> CallbackState M" where
  "read_state c w =
     (case heap_lookup (callback_states w) c of
        None \<Rightarrow> (Inl Crash, w)
      | Some cs \<Rightarrow> (Inr cs, w))"

definition set_target :: "addr \<Rightarrow> addr option \<Rightarrow> unit M" where
  "set_target c v =
     bindM (read_state c)
       (\<lambda>cs w. (Inr (), w\<lparr>callback_states := heap_update c (cs\<lparr>target := v\<rparr>) (callback_states w)\<rparr>))"

definition set_holder :: "addr \<Rightarrow> addr option \<Rightarrow> unit M" where
  "set_holder c v =
     bindM (read_state c)
       (\<lambda>cs w. (Inr (), w\<lparr>callback_states := heap_update c (cs\<lparr>holder := v\<rparr>) (callback_states w)\<rparr>))"

text \<open>\<open>delete callbackState\<close>: frees the record and logs the free; a second delete crashes.\<close>

definition delete_CallbackState :: "addr \<Rightarrow> unit M" where
  "delete_CallbackState c =
     bindM (read_state c)
       (\<lambda>_ w. (Inr (), w\<lparr>callback_states := heap_free c (callback_states w),
                         deleted_states := c # deleted_states w\<rparr>))"

text \<open>\<open>obj->SetHiddenValue(V8StringConstants::GetTarget(), External::New(isolate, p))\<close>.\<close>

definition SetHiddenValue :: "oid option \<Rightarrow> addr option \<Rightarrow> unit M" where
  "SetHiddenValue obj p =
     thenM (call_ext GetTarget_op)
       (\<lambda>w. (case obj of
               None \<Rightarrow> (Inl Crash, w)
             | Some ob \<Rightarrow>
                 if ob < length (objects w)
                 then (Inr (), w\<lparr>objects := (objects w)[ob := (objects w ! ob)\<lparr>hidden := Some p\<rparr>]\<rparr>)
                 else (Inl Crash, w)))"

text \<open>
  \<open>obj->GetHiddenValue(V8StringConstants::GetTarget()).As<External>()->Value()\<close>: the pointer
  wrapped by the hidden value; an object without the hidden value gives an empty handle,
  whose dereference crashes.
\<close>

definition GetHiddenValue :: "oid option \<Rightarrow> (addr option) M" where
  "GetHiddenValue obj =
     thenM (call_ext GetTarget_op)
       (\<lambda>w. (case obj of
               None \<Rightarrow> (Inl Crash, w)
             | Some ob \<Rightarrow>
                 if ob < length (objects w)
                 then (case hidden (objects w ! ob) of
                         None \<Rightarrow> (Inl Crash, w)
                       | Some p \<Rightarrow> (Inr p, w))
                 else (Inl Crash, w)))"

text \<open>\<open>obj->Set(ArgConverter::ConvertToV8String(name), value)\<close>.\<close>

definition ObjectSet :: "oid \<Rightarrow> string \<Rightarrow> oid option \<Rightarrow> unit M" where
  "ObjectSet ob name v =
     thenM (call_ext ConvertToV8String_op)
       (\<lambda>w. (case v of
               None \<Rightarrow> (Inl Crash, w)
             | Some f \<Rightarrow>
                 if ob < length (objects w)
                 then (Inr (), w\<lparr>objects := (objects w)[ob := (objects w ! ob)
                                   \<lparr>props := AList.update name (Object f) (props (objects w ! ob))\<rparr>]\<rparr>)
                 else (Inl Crash, w)))"

text \<open>
  Modelled from the spec: \<open>NativeScriptException::ReThrowToV8\<close> is not in WeakRef.cpp; the
  spec says the fault is re-raised as a script-visible exception with the fault's message.
\<close>

definition ReThrowToV8 :: "string \<Rightarrow> unit M" where
  "ReThrowToV8 msg w = (Inr (), w\<lparr>pending_exception := Some msg\<rparr>)"

text \<open>
  The three catch clauses every guarded function of the file ends with. The second clause
  is \<open>catch (std::exception e)\<close>: it catches by value, so the caught object is a copy
  sliced to the base class, and \<open>e.what()\<close> is the text of \<open>std::exception\<close> itself,
  whatever the thrown exception carried.
\<close>

fun catch_message :: "exn \<Rightarrow> string" where
  "catch_message (NativeScriptException m) = m"
| "catch_message (StdException what) = ''Error: c++ exception: std::exception'' @ [CHR 0x0A]"
| "catch_message OtherException = ''Error: c++ exception!''"

definition try_catch :: "'a M \<Rightarrow> 'a M \<Rightarrow> 'a M" where
  "try_catch body after w =
     (case body w of
        (Inl (Throw e), w') \<Rightarrow> thenM (ReThrowToV8 (catch_message e)) after w'
      | r \<Rightarrow> r)"

subsection \<open>The functions of WeakRef.cpp\<close>

text \<open>
  \<open>FunctionCallbackInfo\<close>: whether the call is a construct call, the arguments and the
  receiver. The value a callback leaves in \<open>args.GetReturnValue()\<close> is the result of its
  model; it is \<open>Undefined\<close> when the callback never sets it.
\<close>

record FunctionCallbackInfo =
  IsConstructCall :: bool
  argv :: "val list"
  This :: oid

text \<open>\<open>WeakRef::WeakRef()\<close>: the controller starts with its three members null.\<close>

definition WeakRef_new :: WeakRef where
  "WeakRef_new = \<lparr>m_objectManager = None, m_poClearFunc = None, m_poGetterFunc = None\<rparr>"

text \<open>
  \<open>WeakRef::Init\<close>: stores the object manager and installs \<open>ConstructorCallback\<close> as the
  global function \<open>WeakRef\<close> of the engine, which is what lets the script construct weak
  references afterwards.
\<close>

definition Init :: "ObjectManager \<Rightarrow> unit M" where
  "Init objectManager =
     thenM (\<lambda>w. (Inr (), w\<lparr>thiz := (thiz w)\<lparr>m_objectManager := Some objectManager\<rparr>\<rparr>))
       (call_ext ConvertToV8String_op)"

text \<open>
  \<open>WeakRef::GetGetterFunction\<close> and \<open>WeakRef::GetClearFunction\<close>. After the catch clauses the
  C++ functions flow off their end without a return value, which is undefined behaviour.
\<close>

definition GetGetterFunction :: "(oid option) M" where
  "GetGetterFunction =
     try_catch
       (\<lambda>w. (case m_poGetterFunc (thiz w) of
               Some p \<Rightarrow> Local_New (Some p) w
             | None \<Rightarrow>
                 bindM (GetFunction GettertCallback_fn) (\<lambda>getterFunc.
                 bindM (new_Persistent getterFunc) (\<lambda>p.
                 thenM (\<lambda>w'. (Inr (), w'\<lparr>thiz := (thiz w')\<lparr>m_poGetterFunc := Some p\<rparr>\<rparr>))
                 (returnM (Some getterFunc)))) w))
       crashM"

definition GetClearFunction :: "(oid option) M" where
  "GetClearFunction =
     try_catch
       (\<lambda>w. (case m_poClearFunc (thiz w) of
               Some p \<Rightarrow> Local_New (Some p) w
             | None \<Rightarrow>
                 bindM (GetFunction ClearCallback_fn) (\<lambda>clearFunc.
                 bindM (new_Persistent clearFunc) (\<lambda>p.
                 thenM (\<lambda>w'. (Inr (), w'\<lparr>thiz := (thiz w')\<lparr>m_poClearFunc := Some p\<rparr>\<rparr>))
                 (returnM (Some clearFunc)))) w))
       crashM"

text \<open>
  \<open>WeakRef::ConstructorCallbackImpl\<close>. In \<open>weakRef->Set(ConvertToV8String(..), Get..Function(..))\<close>
  C++ leaves the order of the two argument evaluations open; the accessor is fetched first here.
\<close>

definition ConstructorCallbackImpl :: "FunctionCallbackInfo \<Rightarrow> val M" where
  "ConstructorCallbackImpl args =
     (if IsConstructCall args then
        if length (argv args) = 1 then
          (case argv args ! 0 of
             Object targetObj \<Rightarrow>
               bindM GetEmptyObject (\<lambda>weakRef.
               bindM (new_Persistent targetObj) (\<lambda>poTarget.
               bindM (new_Persistent weakRef) (\<lambda>poHolder.
               bindM (new_CallbackState poTarget poHolder) (\<lambda>callbackState.
               thenM (SetWeak (Some poTarget) callbackState WeakTargetCallback_fn) (
               thenM (SetWeak (Some poHolder) callbackState WeakHolderCallback_fn) (
               bindM GetGetterFunction (\<lambda>getterFunc.
               thenM (ObjectSet weakRef ''get'' getterFunc) (
               bindM GetClearFunction (\<lambda>clearFunc.
               thenM (ObjectSet weakRef ''clear'' clearFunc) (
               thenM (SetHiddenValue (Some weakRef) (Some poTarget)) (
               returnM (Object weakRef))))))))))))
           | _ \<Rightarrow> throwM (NativeScriptException ''The WeakRef constructor expects an object argument.''))
        else throwM (NativeScriptException ''The WeakRef constructor expects single parameter.'')
      else throwM (NativeScriptException ''WeakRef must be used as a construct call.''))"

text \<open>\<open>WeakRef::ConstructorCallback\<close>: the guarded entry point the engine calls.\<close>

definition ConstructorCallback :: "FunctionCallbackInfo \<Rightarrow> val M" where
  "ConstructorCallback args = try_catch (ConstructorCallbackImpl args) (returnM Undefined)"

text \<open>\<open>WeakRef::WeakTargetCallback\<close>; \<open>c\<close> is \<open>data.GetParameter()\<close>. It has no try block.\<close>

definition WeakTargetCallback :: "addr \<Rightarrow> unit M" where
  "WeakTargetCallback callbackState =
     bindM (read_state callbackState) (\<lambda>cs.
     let poTarget = target cs in
     thenM (Reset poTarget) (
     thenM (delete_Persistent poTarget) (
     thenM (set_target callbackState None) (
     bindM (read_state callbackState) (\<lambda>cs1.
     let poHolder = holder cs1 in
     thenM (if poHolder \<noteq> None
            then bindM (Local_New poHolder) (\<lambda>holderObj. SetHiddenValue holderObj None)
            else returnM ()) (
     bindM (read_state callbackState) (\<lambda>cs2.
     if holder cs2 = None then delete_CallbackState callbackState else returnM ())))))))"

text \<open>\<open>WeakRef::WeakHolderCallback\<close>.\<close>

definition WeakHolderCallback :: "addr \<Rightarrow> unit M" where
  "WeakHolderCallback callbackState =
     try_catch
       (bindM (read_state callbackState) (\<lambda>cs.
        let poHolder = holder cs in
        bindM (Local_New poHolder) (\<lambda>holderObj.
        bindM (GetHiddenValue holderObj) (\<lambda>poTarget.
        if poTarget \<noteq> None
        then SetWeak poHolder callbackState WeakHolderCallback_fn
        else
          thenM (Reset poHolder) (
          thenM (delete_Persistent poHolder) (
          thenM (set_holder callbackState None) (
          bindM (read_state callbackState) (\<lambda>cs1.
          if target cs1 = None then delete_CallbackState callbackState else returnM ()))))))))
       (returnM ())"

text \<open>\<open>WeakRef::ClearCallback\<close>.\<close>

definition ClearCallback :: "FunctionCallbackInfo \<Rightarrow> val M" where
  "ClearCallback args =
     try_catch
       (thenM (SetHiddenValue (Some (This args)) None) (returnM Undefined))
       (returnM Undefined)"

text \<open>
  \<open>WeakRef::GettertCallback\<close>. \<open>ReturnValue::Set\<close> of an empty local handle leaves the
  default return value, \<open>Undefined\<close>.
\<close>

definition GettertCallback :: "FunctionCallbackInfo \<Rightarrow> val M" where
  "GettertCallback args =
     try_catch
       (bindM (GetHiddenValue (Some (This args))) (\<lambda>poTarget.
        if poTarget \<noteq> None
        then bindM (Local_New poTarget) (\<lambda>targetObj.
               returnM (case targetObj of Some t \<Rightarrow> Object t | None \<Rightarrow> Undefined))
        else returnM Null))
       (returnM Undefined)"

subsection \<open>The collector and the script, as drivers of the callbacks\<close>

text \<open>
  Modelled from the spec: the collector is outside WeakRef.cpp. The spec says a weak handle
  carries a single-shot finalize callback, invoked at most once per registration, which the
  callback may register again. So the collector can fire only a live handle that has a
  registration (\<open>None\<close> here means it cannot fire), and firing consumes the registration
  before the callback runs with the registered parameter.
\<close>

fun invoke_weak :: "weak_callback \<Rightarrow> addr \<Rightarrow> unit M" where
  "invoke_weak WeakTargetCallback_fn c = WeakTargetCallback c"
| "invoke_weak WeakHolderCallback_fn c = WeakHolderCallback c"

definition gc_fire :: "addr \<Rightarrow> world \<Rightarrow> ((abort + unit) \<times> world) option" where
  "gc_fire p w =
     (case heap_lookup (persistents w) p of
        None \<Rightarrow> None
      | Some per \<Rightarrow>
          (case weak per of
             None \<Rightarrow> None
           | Some (param, cb) \<Rightarrow>
               Some (invoke_weak cb param
                       (w\<lparr>persistents := heap_update p (per\<lparr>weak := None\<rparr>) (persistents w)\<rparr>))))"

text \<open>
  The events of the system: the script constructing a weak reference, the collector firing
  the weak callback of a persistent handle, and the script calling \<open>get()\<close> or \<open>clear()\<close>
  with some object as receiver.
\<close>

datatype event = Construct FunctionCallbackInfo | Collect addr | CallGet oid | CallClear oid

definition call_on :: "oid \<Rightarrow> FunctionCallbackInfo" where
  "call_on h = \<lparr>IsConstructCall = False, argv = [], This = h\<rparr>"

definition forget :: "(abort + 'a) \<times> world \<Rightarrow> (abort + unit) \<times> world" where
  "forget r = (case r of (Inl a, w) \<Rightarrow> (Inl a, w) | (Inr _, w) \<Rightarrow> (Inr (), w))"

fun step :: "event \<Rightarrow> world \<Rightarrow> ((abort + unit) \<times> world) option" where
  "step (Construct a) w = Some (forget (ConstructorCallback a w))"
| "step (Collect p) w = gc_fire p w"
| "step (CallGet h) w = Some (forget (GettertCallback (call_on h) w))"
| "step (CallClear h) w = Some (forget (ClearCallback (call_on h) w))"

text \<open>
  Running a sequence of events: \<open>None\<close> when some event could not happen (the collector
  firing a handle that has no registration), \<open>Some (Inl a)\<close> when a callback aborted, and
  \<open>Some (Inr w)\<close> with the final world otherwise.
\<close>

fun run :: "event list \<Rightarrow> world \<Rightarrow> (abort + world) option" where
  "run [] w = Some (Inr w)"
| "run (e # es) w =
     (case step e w of
        None \<Rightarrow> None
      | Some (Inl a, w') \<Rightarrow> Some (Inl a)
      | Some (Inr _, w') \<Rightarrow> run es w')"

subsection \<open>One weak-reference instance and its life cycle\<close>

text \<open>
  One weak-reference instance: the address of its CallbackState, of its two persistent
  handles, and its holder object. Its own events are the two collector callbacks and the
  script calling \<open>clear()\<close> or \<open>get()\<close> on the holder.
\<close>

record inst =
  state_of :: addr
  target_of :: addr
  holder_of :: addr
  object_of :: oid

definition instance_events :: "inst \<Rightarrow> event set" where
  "instance_events i =
     {Collect (target_of i), Collect (holder_of i), CallClear (object_of i), CallGet (object_of i)}"

definition released :: "addr \<Rightarrow> world \<Rightarrow> bool" where
  "released p w = (heap_lookup (persistents w) p = None)"

definition armed :: "addr \<Rightarrow> addr \<Rightarrow> weak_callback \<Rightarrow> world \<Rightarrow> bool" where
  "armed p c cb w =
     (case heap_lookup (persistents w) p of
        None \<Rightarrow> False
      | Some per \<Rightarrow> weak per = Some (c, cb))"

definition holder_registered :: "inst \<Rightarrow> world \<Rightarrow> bool" where
  "holder_registered i w =
     (case heap_lookup (persistents w) (holder_of i) of
        None \<Rightarrow> False
      | Some per \<Rightarrow> referent per = Some (object_of i)
                    \<and> weak per = Some (state_of i, WeakHolderCallback_fn))"

text \<open>The hidden slot of an object, \<open>None\<close> when the object does not exist or has none.\<close>

definition slot :: "oid \<Rightarrow> world \<Rightarrow> addr option option" where
  "slot h w = (if h < length (objects w) then hidden (objects w ! h) else None)"

text \<open>The states of a CallbackState named in the design of the finalize handlers.\<close>

datatype phase = Active | TargetGone | HolderGoneTargetLive | BothGone

fun in_phase :: "inst \<Rightarrow> phase \<Rightarrow> world \<Rightarrow> bool" where
  "in_phase i Active w =
     (heap_lookup (callback_states w) (state_of i)
        = Some \<lparr>target = Some (target_of i), holder = Some (holder_of i)\<rparr>
      \<and> armed (target_of i) (state_of i) WeakTargetCallback_fn w
      \<and> holder_registered i w
      \<and> (slot (object_of i) w = Some (Some (target_of i)) \<or> slot (object_of i) w = Some None)
      \<and> count_list (deleted_states w) (state_of i) = 0)"
| "in_phase i TargetGone w =
     (heap_lookup (callback_states w) (state_of i)
        = Some \<lparr>target = None, holder = Some (holder_of i)\<rparr>
      \<and> released (target_of i) w
      \<and> holder_registered i w
      \<and> slot (object_of i) w = Some None
      \<and> count_list (deleted_states w) (state_of i) = 0)"
| "in_phase i HolderGoneTargetLive w =
     (heap_lookup (callback_states w) (state_of i)
        = Some \<lparr>target = Some (target_of i), holder = None\<rparr>
      \<and> armed (target_of i) (state_of i) WeakTargetCallback_fn w
      \<and> released (holder_of i) w
      \<and> slot (object_of i) w = Some None
      \<and> count_list (deleted_states w) (state_of i) = 0)"
| "in_phase i BothGone w =
     (heap_lookup (callback_states w) (state_of i) = None
      \<and> released (target_of i) w
      \<and> released (holder_of i) w
      \<and> slot (object_of i) w = Some None
      \<and> count_list (deleted_states w) (state_of i) = 1)"

text \<open>A cached accessor handle of the controller is usable: it is live and not empty.\<close>

definition cached_ok :: "addr option \<Rightarrow> world \<Rightarrow> bool" where
  "cached_ok po w =
     (case po of
        None \<Rightarrow> True
      | Some p \<Rightarrow> (case heap_lookup (persistents w) p of
                    None \<Rightarrow> False
                  | Some per \<Rightarrow> referent per \<noteq> None))"

text \<open>
  Two notions for reasoning about the monadic code: a computation preserves a property of
  the world (however it ends), and the values it can return from a world with that property
  satisfy a condition.
\<close>

definition preserves :: "(world \<Rightarrow> bool) \<Rightarrow> 'a M \<Rightarrow> bool" where
  "preserves P m = (\<forall>w. P w \<longrightarrow> P (snd (m w)))"

definition yields :: "(world \<Rightarrow> bool) \<Rightarrow> 'a M \<Rightarrow> ('a \<Rightarrow> bool) \<Rightarrow> bool" where
  "yields P m Q = (\<forall>w x w'. P w \<longrightarrow> m w = (Inr x, w') \<longrightarrow> Q x)"

text \<open>The function object a cached accessor handle resolves to.\<close>

definition cached_fn :: "addr option \<Rightarrow> world \<Rightarrow> oid option" where
  "cached_fn po w =
     (case po of
        None \<Rightarrow> None
      | Some p \<Rightarrow> (case heap_lookup (persistents w) p of
                    None \<Rightarrow> None
                  | Some per \<Rightarrow> referent per))"

text \<open>
  A persistent handle stays resolving to the same object as long as no CallbackState points
  to it, since the weak callbacks reset and delete only the handles their record points to.
  The accessor cache is live when both cached handles are of this kind.
\<close>

definition unaliased :: "addr \<Rightarrow> world \<Rightarrow> bool" where
  "unaliased p w =
     (\<forall>c cs. heap_lookup (callback_states w) c = Some cs \<longrightarrow>
             target cs \<noteq> Some p \<and> holder cs \<noteq> Some p)"

definition stays :: "addr \<Rightarrow> oid \<Rightarrow> world \<Rightarrow> bool" where
  "stays p f w = (cached_fn (Some p) w = Some f \<and> unaliased p w)"

definition cache_live :: "addr \<Rightarrow> addr \<Rightarrow> oid \<Rightarrow> oid \<Rightarrow> world \<Rightarrow> bool" where
  "cache_live pg pc fg fc w =
     (m_poGetterFunc (thiz w) = Some pg \<and> m_poClearFunc (thiz w) = Some pc
      \<and> stays pg fg w \<and> stays pc fc w)"

text \<open>
  A cached accessor handle of the controller is in order: it is live and resolves to a
  function object built from the given native callback.
\<close>

definition accessor_ok :: "native_fn \<Rightarrow> addr option \<Rightarrow> world \<Rightarrow> bool" where
  "accessor_ok fn po w =
     (case cached_fn po w of
        None \<Rightarrow> po = None
      | Some f \<Rightarrow> f < length (objects w) \<and> callee (objects w ! f) = Some fn)"

text \<open>
  Modelled from the spec: the script calling a method, \<open>obj.name()\<close>, is the engine's work
  and not in WeakRef.cpp. The engine looks the property up on the object and, when its value
  is a function object built from one of the two native callbacks, runs that callback with
  the object as receiver and no arguments. \<open>None\<close>: the object has no such property, or its
  value is not such a function, and no code of this file runs.
\<close>

definition call_method :: "oid \<Rightarrow> string \<Rightarrow> world \<Rightarrow> ((abort + val) \<times> world) option" where
  "call_method h name w =
     (if h < length (objects w) then
        (case map_of (props (objects w ! h)) name of
           Some (Object f) \<Rightarrow>
             (if f < length (objects w) then
                (case callee (objects w ! f) of
                   Some GettertCallback_fn \<Rightarrow> Some (GettertCallback (call_on h) w)
                 | Some ClearCallback_fn \<Rightarrow> Some (ClearCallback (call_on h) w)
                 | None \<Rightarrow> None)
              else None)
         | _ \<Rightarrow> None)
      else None)"

subsection \<open>Example worlds\<close>

text \<open>
  \<open>world0\<close>: the controller after \<open>Init\<close>, with one script object (object 0) and nothing
  allocated. \<open>world1\<close>: the world after \<open>new WeakRef(object 0)\<close> in \<open>world0\<close>: object 1 is the
  holder, objects 2 and 3 the shared \<open>get\<close> and \<open>clear\<close> functions, handles 0 and 1 the
  target and holder handles of CallbackState 0.
\<close>

definition world0 :: world where
  "world0 =
     \<lparr>objects = [\<lparr>props = [], hidden = None, callee = None\<rparr>],
      persistents = [],
      global_handles = [],
      callback_states = [],
      deleted_states = [],
      thiz = \<lparr>m_objectManager = Some TheObjectManager, m_poClearFunc = None, m_poGetterFunc = None\<rparr>,
      pending_exception = None,
      faults = []\<rparr>"

definition new_call :: "val list \<Rightarrow> FunctionCallbackInfo" where
  "new_call vs = \<lparr>IsConstructCall = True, argv = vs, This = 0\<rparr>"

definition plain_call :: "val list \<Rightarrow> FunctionCallbackInfo" where
  "plain_call vs = \<lparr>IsConstructCall = False, argv = vs, This = 0\<rparr>"

definition world1 :: world where
  "world1 =
     \<lparr>objects = [\<lparr>props = [], hidden = None, callee = None\<rparr>,
                 \<lparr>props = [(''get'', Object 2), (''clear'', Object 3)],
                  hidden = Some (Some 0), callee = None\<rparr>,
                 \<lparr>props = [], hidden = None, callee = Some GettertCallback_fn\<rparr>,
                 \<lparr>props = [], hidden = None, callee = Some ClearCallback_fn\<rparr>],
      persistents = [Some \<lparr>referent = Some 0, weak = Some (0, WeakTargetCallback_fn)\<rparr>,
                     Some \<lparr>referent = Some 1, weak = Some (0, WeakHolderCallback_fn)\<rparr>,
                     Some \<lparr>referent = Some 2, weak = None\<rparr>,
                     Some \<lparr>referent = Some 3, weak = None\<rparr>],
      global_handles = [3, 2, 1, 0],
      callback_states = [Some \<lparr>target = Some 0, holder = Some 1\<rparr>],
      deleted_states = [],
      thiz = \<lparr>m_objectManager = Some TheObjectManager, m_poClearFunc = Some 3, m_poGetterFunc = Some 2\<rparr>,
      pending_exception = None,
      faults = []\<rparr>"

definition inst1 :: inst where
  "inst1 = \<lparr>state_of = 0, target_of = 0, holder_of = 1, object_of = 1\<rparr>"

text \<open>
  \<open>world2\<close>: \<open>world1\<close> after \<open>clear()\<close> on the holder and a holder callback: the holder handle
  is released, the target handle is still registered.
\<close>

definition world2 :: world where
  "world2 =
     \<lparr>objects = [\<lparr>props = [], hidden = None, callee = None\<rparr>,
                 \<lparr>props = [(''get'', Object 2), (''clear'', Object 3)],
                  hidden = Some None, callee = None\<rparr>,
                 \<lparr>props = [], hidden = None, callee = Some GettertCallback_fn\<rparr>,
                 \<lparr>props = [], hidden = None, callee = Some ClearCallback_fn\<rparr>],
      persistents = [Some \<lparr>referent = Some 0, weak = Some (0, WeakTargetCallback_fn)\<rparr>,
                     None,
                     Some \<lparr>referent = Some 2, weak = None\<rparr>,
                     Some \<lparr>referent = Some 3, weak = None\<rparr>],
      global_handles = [3, 2, 0],
      callback_states = [Some \<lparr>target = Some 0, holder = None\<rparr>],
      deleted_states = [],
      thiz = \<lparr>m_objectManager = Some TheObjectManager, m_poClearFunc = Some 3, m_poGetterFunc = Some 2\<rparr>,
      pending_exception = None,
      faults = []\<rparr>"

text \<open>
  \<open>world3\<close>: \<open>world1\<close> after \<open>clear()\<close> on the holder. \<open>world4\<close>: \<open>world1\<close> after the target
  callback: the target handle is released and the holder handle is still registered.
\<close>

definition world3 :: world where
  "world3 =
     \<lparr>objects = [\<lparr>props = [], hidden = None, callee = None\<rparr>,
                 \<lparr>props = [(''get'', Object 2), (''clear'', Object 3)],
                  hidden = Some None, callee = None\<rparr>,
                 \<lparr>props = [], hidden = None, callee = Some GettertCallback_fn\<rparr>,
                 \<lparr>props = [], hidden = None, callee = Some ClearCallback_fn\<rparr>],
      persistents = [Some \<lparr>referent = Some 0, weak = Some (0, WeakTargetCallback_fn)\<rparr>,
                     Some \<lparr>referent = Some 1, weak = Some (0, WeakHolderCallback_fn)\<rparr>,
                     Some \<lparr>referent = Some 2, weak = None\<rparr>,
                     Some \<lparr>referent = Some 3, weak = None\<rparr>],
      global_handles = [3, 2, 1, 0],
      callback_states = [Some \<lparr>target = Some 0, holder = Some 1\<rparr>],
      deleted_states = [],
      thiz = \<lparr>m_objectManager = Some TheObjectManager, m_poClearFunc = Some 3, m_poGetterFunc = Some 2\<rparr>,
      pending_exception = None,
      faults = []\<rparr>"

definition world4 :: world where
  "world4 =
     \<lparr>objects = [\<lparr>props = [], hidden = None, callee = None\<rparr>,
                 \<lparr>props = [(''get'', Object 2), (''clear'', Object 3)],
                  hidden = Some None, callee = None\<rparr>,
                 \<lparr>props = [], hidden = None, callee = Some GettertCallback_fn\<rparr>,
                 \<lparr>props = [], hidden = None, callee = Some ClearCallback_fn\<rparr>],
      persistents = [None,
                     Some \<lparr>referent = Some 1, weak = Some (0, WeakHolderCallback_fn)\<rparr>,
                     Some \<lparr>referent = Some 2, weak = None\<rparr>,
                     Some \<lparr>referent = Some 3, weak = None\<rparr>],
      global_handles = [3, 2, 1],
      callback_states = [Some \<lparr>target = None, holder = Some 1\<rparr>],
      deleted_states = [],
      thiz = \<lparr>m_objectManager = Some TheObjectManager, m_poClearFunc = Some 3, m_poGetterFunc = Some 2\<rparr>,
      pending_exception = None,
      faults = []\<rparr>"

text \<open>\<open>world1_faulty\<close>: \<open>world1\<close> in an environment where \<open>V8StringConstants::GetTarget()\<close> throws.\<close>

definition world1_faulty :: world where
  "world1_faulty = world1\<lparr>faults := [(GetTarget_op, NativeScriptException ''native fault'')]\<rparr>"

text \<open>\<open>world5\<close>: the end of the instance's life: both handles released, CallbackState 0 freed.\<close>

definition world5 :: world where
  "world5 =
     \<lparr>objects = [\<lparr>props = [], hidden = None, callee = None\<rparr>,
                 \<lparr>props = [(''get'', Object 2), (''clear'', Object 3)],
                  hidden = Some None, callee = None\<rparr>,
                 \<lparr>props = [], hidden = None, callee = Some GettertCallback_fn\<rparr>,
                 \<lparr>props = [], hidden = None, callee = Some ClearCallback_fn\<rparr>],
      persistents = [None,
                     None,
                     Some \<lparr>referent = Some 2, weak = None\<rparr>,
                     Some \<lparr>referent = Some 3, weak = None\<rparr>],
      global_handles = [3, 2],
      callback_states = [None],
      deleted_states = [0],
      thiz = \<lparr>m_objectManager = Some TheObjectManager, m_poClearFunc = Some 3, m_poGetterFunc = Some 2\<rparr>,
      pending_exception = None,
      faults = []\<rparr>"

section \<open>Basic facts about the heaps and the monad\<close>

lemma heap_lookup_update:
  "heap_lookup (heap_update a v h) b = (if a = b \<and> a < length h then Some v else heap_lookup h b)"
  by (auto simp: heap_lookup_def heap_update_def)

lemma heap_lookup_free:
  "heap_lookup (heap_free a h) b = (if a = b then None else heap_lookup h b)"
  by (auto simp: heap_lookup_def heap_free_def)

lemma heap_lookup_SomeD: "heap_lookup h a = Some v \<Longrightarrow> a < length h"
  by (auto simp: heap_lookup_def split: if_splits)

lemma heap_free_update: "heap_free a (heap_update a v h) = heap_free a h"
  by (simp add: heap_free_def heap_update_def)

lemma heap_update_update: "heap_update a v (heap_update a u h) = heap_update a v h"
  by (simp add: heap_update_def)

lemma heap_update_same: "heap_lookup h a = Some v \<Longrightarrow> heap_update a v h = h"
  by (auto simp: heap_lookup_def heap_update_def list_update_same_conv split: if_splits)

lemma heap_lookup_append:
  "heap_lookup (h @ xs) p = (if p < length h then heap_lookup h p else heap_lookup xs (p - length h))"
  by (auto simp: heap_lookup_def nth_append split: if_splits)

lemma heap_lookup_Cons:
  "heap_lookup (x # xs) p = (case p of 0 \<Rightarrow> x | Suc q \<Rightarrow> heap_lookup xs q)"
  by (auto simp: heap_lookup_def split: nat.splits)

lemma heap_lookup_Nil: "heap_lookup [] p = None"
  by (simp add: heap_lookup_def)

lemmas monad_defs = bindM_def thenM_def returnM_def throwM_def crashM_def

lemmas prim_defs = read_state_def Reset_def dispose_handle_def deref_Persistent_def store_Persistent_def
  delete_Persistent_def set_target_def set_holder_def Local_New_def SetHiddenValue_def
  GetHiddenValue_def ObjectSet_def SetWeak_def new_Persistent_def new_CallbackState_def
  GetFunction_def GetEmptyObject_def heap_new_def delete_CallbackState_def call_ext_def
  ReThrowToV8_def try_catch_def

text \<open>The example world \<open>world0\<close> is a new controller after \<open>Init\<close>.\<close>

lemma Init_world0: "Init TheObjectManager (world0\<lparr>thiz := WeakRef_new\<rparr>) = (Inr (), world0)"
  by (simp add: Init_def WeakRef_new_def world0_def monad_defs call_ext_def)

section \<open>The target callback\<close>

lemma WeakTargetCallback_holder_live:
  assumes "faults w = []"
    and "heap_lookup (callback_states w) c = Some cs"
    and "target cs = Some tp" and "holder cs = Some hp"
    and "heap_lookup (persistents w) tp = Some tper"
    and "heap_lookup (persistents w) hp = Some hper"
    and "tp \<noteq> hp"
    and "referent hper = Some h" and "h < length (objects w)"
  shows "WeakTargetCallback c w =
           (Inr (), w\<lparr>global_handles := removeAll tp (global_handles w),
                      persistents := heap_free tp (persistents w),
                      callback_states := heap_update c (cs\<lparr>target := None\<rparr>) (callback_states w),
                      objects := (objects w)[h := (objects w ! h)\<lparr>hidden := Some None\<rparr>]\<rparr>)"
  using assms heap_lookup_SomeD[OF assms(2)] heap_lookup_SomeD[OF assms(5)]
  by (simp add: WeakTargetCallback_def monad_defs prim_defs heap_lookup_update heap_lookup_free
      heap_free_update Let_def)

lemma WeakTargetCallback_holder_gone:
  assumes "faults w = []"
    and "heap_lookup (callback_states w) c = Some cs"
    and "target cs = Some tp" and "holder cs = None"
    and "heap_lookup (persistents w) tp = Some tper"
  shows "WeakTargetCallback c w =
           (Inr (), w\<lparr>global_handles := removeAll tp (global_handles w),
                      persistents := heap_free tp (persistents w),
                      callback_states := heap_free c (callback_states w),
                      deleted_states := c # deleted_states w\<rparr>)"
  using assms heap_lookup_SomeD[OF assms(2)] heap_lookup_SomeD[OF assms(5)]
  by (simp add: WeakTargetCallback_def monad_defs prim_defs heap_lookup_update heap_lookup_free
      heap_free_update Let_def)

lemma GettertCallback_absent:
  assumes "faults w = []" and "slot (This args) w = Some None"
  shows "GettertCallback args w = (Inr Null, w)"
  using assms
  by (simp add: GettertCallback_def slot_def monad_defs prim_defs split: if_splits)

lemma GettertCallback_live:
  assumes "faults w = []" and "slot (This args) w = Some (Some tp)"
    and "heap_lookup (persistents w) tp = Some tper" and "referent tper = Some x"
  shows "GettertCallback args w = (Inr (Object x), w)"
  using assms
  by (simp add: GettertCallback_def slot_def monad_defs prim_defs split: if_splits)

lemma This_call_on: "This (call_on h) = h"
  by (simp add: call_on_def)

text \<open>
  Claim C2. When the target callback runs on a CallbackState whose target handle is
  registered, it ends normally and the target handle is released: its global handle is given
  back to the engine (\<open>Reset\<close>), so that it is no longer in the engine's table, and the
  persistent itself is deleted. If the holder
  handle is still registered, the record survives with its target field null and its holder
  field unchanged, the hidden slot of the holder holds the absent sentinel, so that \<open>get()\<close>
  on the holder returns null, and nothing is freed. If the holder field is already null, the
  record is freed.
\<close>

theorem WeakTargetCallback_effect:
  assumes "faults w = []"
    and "heap_lookup (callback_states w) c = Some cs"
    and "target cs = Some tp"
    and "heap_lookup (persistents w) tp = Some tper"
  shows "(holder cs = Some hp \<and> hp \<noteq> tp \<and> heap_lookup (persistents w) hp = Some hper
            \<and> referent hper = Some h \<and> h < length (objects w) \<longrightarrow>
          (\<exists>w'. WeakTargetCallback c w = (Inr (), w')
              \<and> global_handles w' = removeAll tp (global_handles w)
              \<and> tp \<notin> set (global_handles w')
              \<and> released tp w'
              \<and> heap_lookup (callback_states w') c = Some \<lparr>target = None, holder = Some hp\<rparr>
              \<and> slot h w' = Some None
              \<and> GettertCallback (call_on h) w' = (Inr Null, w')
              \<and> deleted_states w' = deleted_states w)) \<and>
         (holder cs = None \<longrightarrow>
          (\<exists>w'. WeakTargetCallback c w = (Inr (), w')
              \<and> global_handles w' = removeAll tp (global_handles w)
              \<and> tp \<notin> set (global_handles w')
              \<and> released tp w'
              \<and> heap_lookup (callback_states w') c = None
              \<and> deleted_states w' = c # deleted_states w))"
proof (intro conjI impI)
  assume "holder cs = None"
  then show "\<exists>w'. WeakTargetCallback c w = (Inr (), w')
              \<and> global_handles w' = removeAll tp (global_handles w)
              \<and> tp \<notin> set (global_handles w')
              \<and> released tp w'
              \<and> heap_lookup (callback_states w') c = None
              \<and> deleted_states w' = c # deleted_states w"
    using WeakTargetCallback_holder_gone[OF assms(1-3) _ assms(4)]
    by (simp add: released_def heap_lookup_free)
next
  assume pre: "holder cs = Some hp \<and> hp \<noteq> tp \<and> heap_lookup (persistents w) hp = Some hper
            \<and> referent hper = Some h \<and> h < length (objects w)"
  let ?w' = "w\<lparr>global_handles := removeAll tp (global_handles w),
                      persistents := heap_free tp (persistents w),
               callback_states := heap_update c (cs\<lparr>target := None\<rparr>) (callback_states w),
               objects := (objects w)[h := (objects w ! h)\<lparr>hidden := Some None\<rparr>]\<rparr>"
  have run: "WeakTargetCallback c w = (Inr (), ?w')"
    using WeakTargetCallback_holder_live[OF assms(1-3) _ assms(4)] pre by simp
  have sl: "slot h ?w' = Some None" using pre by (simp add: slot_def)
  have get: "GettertCallback (call_on h) ?w' = (Inr Null, ?w')"
    by (rule GettertCallback_absent) (use assms(1) sl in \<open>simp_all add: This_call_on\<close>)
  have cs': "cs\<lparr>target := None\<rparr> = \<lparr>target = None, holder = Some hp\<rparr>"
    using pre by (cases cs) simp
  show "\<exists>w'. WeakTargetCallback c w = (Inr (), w')
              \<and> global_handles w' = removeAll tp (global_handles w)
              \<and> tp \<notin> set (global_handles w')
              \<and> released tp w'
              \<and> heap_lookup (callback_states w') c = Some \<lparr>target = None, holder = Some hp\<rparr>
              \<and> slot h w' = Some None
              \<and> GettertCallback (call_on h) w' = (Inr Null, w')
              \<and> deleted_states w' = deleted_states w"
    using run sl get heap_lookup_SomeD[OF assms(2)] cs'
    by (simp add: released_def heap_lookup_free heap_lookup_update)
qed

theorem WeakTargetCallback_effect_witness:
  "(\<exists>w'. WeakTargetCallback 0 world1 = (Inr (), w')
       \<and> global_handles w' = [3, 2, 1]
       \<and> 0 \<notin> set (global_handles w')
       \<and> released 0 w'
       \<and> heap_lookup (callback_states w') 0 = Some \<lparr>target = None, holder = Some 1\<rparr>
       \<and> slot 1 w' = Some None
       \<and> GettertCallback (call_on 1) w' = (Inr Null, w')
       \<and> deleted_states w' = []) \<and>
   (\<exists>w'. WeakTargetCallback 0 world2 = (Inr (), w')
       \<and> global_handles w' = [3, 2]
       \<and> 0 \<notin> set (global_handles w')
       \<and> released 0 w'
       \<and> heap_lookup (callback_states w') 0 = None
       \<and> deleted_states w' = [0])"
  using WeakTargetCallback_effect[of world1 0 "\<lparr>target = Some 0, holder = Some 1\<rparr>" 0
          "\<lparr>referent = Some 0, weak = Some (0, WeakTargetCallback_fn)\<rparr>" 1
          "\<lparr>referent = Some 1, weak = Some (0, WeakHolderCallback_fn)\<rparr>" 1]
        WeakTargetCallback_effect[of world2 0 "\<lparr>target = Some 0, holder = None\<rparr>" 0
          "\<lparr>referent = Some 0, weak = Some (0, WeakTargetCallback_fn)\<rparr>"]
  by (simp add: world1_def world2_def heap_lookup_def)

section \<open>The holder callback\<close>

lemma WeakHolderCallback_rearm:
  assumes "faults w = []"
    and "heap_lookup (callback_states w) c = Some cs"
    and "holder cs = Some hp"
    and "heap_lookup (persistents w) hp = Some hper"
    and "referent hper = Some h"
    and "slot h w = Some (Some tp)"
  shows "WeakHolderCallback c w =
           (Inr (), w\<lparr>persistents :=
                        heap_update hp (hper\<lparr>weak := Some (c, WeakHolderCallback_fn)\<rparr>) (persistents w)\<rparr>)"
  using assms
  by (simp add: WeakHolderCallback_def monad_defs prim_defs slot_def Let_def split: if_splits)

lemma WeakHolderCallback_release:
  assumes "faults w = []"
    and "heap_lookup (callback_states w) c = Some cs"
    and "holder cs = Some hp"
    and "heap_lookup (persistents w) hp = Some hper"
    and "referent hper = Some h"
    and "slot h w = Some None"
  shows "WeakHolderCallback c w =
           (Inr (), if target cs = None
                    then w\<lparr>global_handles := removeAll hp (global_handles w),
                           persistents := heap_free hp (persistents w),
                           callback_states := heap_free c (callback_states w),
                           deleted_states := c # deleted_states w\<rparr>
                    else w\<lparr>global_handles := removeAll hp (global_handles w),
                           persistents := heap_free hp (persistents w),
                           callback_states := heap_update c (cs\<lparr>holder := None\<rparr>) (callback_states w)\<rparr>)"
  using assms heap_lookup_SomeD[OF assms(2)] heap_lookup_SomeD[OF assms(4)]
  by (simp add: WeakHolderCallback_def monad_defs prim_defs slot_def Let_def heap_lookup_update
      heap_lookup_free heap_free_update split: if_splits)

text \<open>
  Claim C3. When the holder callback runs on a CallbackState whose holder handle is
  registered: if the hidden slot of the holder wraps a non-null pointer, the callback only
  registers itself again on the holder handle; the CallbackState store, the log of frees, the
  objects and every other handle are unchanged. If the slot holds the absent sentinel, the
  holder handle is released: its global handle is given back to the engine (\<open>Reset\<close>), so
  that it is no longer in the engine's table, and the persistent itself is deleted; and the
  record is freed exactly when its target field is already null; otherwise it survives with
  its holder field null.
\<close>

theorem WeakHolderCallback_effect:
  assumes "faults w = []"
    and "heap_lookup (callback_states w) c = Some cs"
    and "holder cs = Some hp"
    and "heap_lookup (persistents w) hp = Some hper"
    and "referent hper = Some h"
  shows "(slot h w = Some (Some tp) \<longrightarrow>
            WeakHolderCallback c w =
              (Inr (), w\<lparr>persistents :=
                 heap_update hp (hper\<lparr>weak := Some (c, WeakHolderCallback_fn)\<rparr>) (persistents w)\<rparr>)) \<and>
         (slot h w = Some None \<longrightarrow>
            (\<exists>w'. WeakHolderCallback c w = (Inr (), w')
               \<and> global_handles w' = removeAll hp (global_handles w)
               \<and> hp \<notin> set (global_handles w')
               \<and> released hp w'
               \<and> (if target cs = None
                   then heap_lookup (callback_states w') c = None
                        \<and> deleted_states w' = c # deleted_states w
                   else heap_lookup (callback_states w') c = Some (cs\<lparr>holder := None\<rparr>)
                        \<and> deleted_states w' = deleted_states w)))"
  using WeakHolderCallback_rearm[OF assms, of tp] WeakHolderCallback_release[OF assms]
    heap_lookup_SomeD[OF assms(2)]
  by (simp add: released_def heap_lookup_free heap_lookup_update)

theorem WeakHolderCallback_effect_witness:
  "WeakHolderCallback 0 world1 = (Inr (), world1) \<and>
   (\<exists>w'. WeakHolderCallback 0 world3 = (Inr (), w')
       \<and> global_handles w' = [3, 2, 0] \<and> 1 \<notin> set (global_handles w') \<and> released 1 w'
       \<and> heap_lookup (callback_states w') 0 = Some \<lparr>target = Some 0, holder = None\<rparr>
       \<and> deleted_states w' = []) \<and>
   (\<exists>w'. WeakHolderCallback 0 world4 = (Inr (), w')
       \<and> global_handles w' = [3, 2] \<and> 1 \<notin> set (global_handles w') \<and> released 1 w'
       \<and> heap_lookup (callback_states w') 0 = None
       \<and> deleted_states w' = [0])"
  using WeakHolderCallback_effect[of world1 0 "\<lparr>target = Some 0, holder = Some 1\<rparr>" 1
          "\<lparr>referent = Some 1, weak = Some (0, WeakHolderCallback_fn)\<rparr>" 1 0]
        WeakHolderCallback_effect[of world3 0 "\<lparr>target = Some 0, holder = Some 1\<rparr>" 1
          "\<lparr>referent = Some 1, weak = Some (0, WeakHolderCallback_fn)\<rparr>" 1 0]
        WeakHolderCallback_effect[of world4 0 "\<lparr>target = None, holder = Some 1\<rparr>" 1
          "\<lparr>referent = Some 1, weak = Some (0, WeakHolderCallback_fn)\<rparr>" 1 0]
  by (simp add: world1_def world3_def world4_def heap_lookup_def heap_update_def slot_def)

section \<open>clear()\<close>

lemma ClearCallback_writes:
  assumes "faults w = []" and "This args < length (objects w)"
  shows "ClearCallback args w =
           (Inr Undefined,
            w\<lparr>objects := (objects w)[This args := (objects w ! This args)\<lparr>hidden := Some None\<rparr>]\<rparr>)"
  using assms by (simp add: ClearCallback_def monad_defs prim_defs)

text \<open>
  Claim C8. \<open>clear()\<close> on an object writes the absent sentinel into its hidden slot and
  changes nothing else: the CallbackState store, the persistent handles with their weak
  registrations, the log of frees, the controller and the pending exception are unchanged,
  every other hidden slot is unchanged, and the collector can fire exactly the handles it
  could fire before.
\<close>

theorem ClearCallback_frame:
  assumes "faults w = []" and "This args < length (objects w)"
  shows "\<exists>w'. ClearCallback args w = (Inr Undefined, w')
           \<and> slot (This args) w' = Some None
           \<and> w' = w\<lparr>objects := (objects w)[This args := (objects w ! This args)\<lparr>hidden := Some None\<rparr>]\<rparr>
           \<and> callback_states w' = callback_states w
           \<and> persistents w' = persistents w
           \<and> deleted_states w' = deleted_states w
           \<and> thiz w' = thiz w
           \<and> pending_exception w' = pending_exception w
           \<and> (\<forall>h. h \<noteq> This args \<longrightarrow> slot h w' = slot h w)
           \<and> (\<forall>p. gc_fire p w' = None \<longleftrightarrow> gc_fire p w = None)"
  using ClearCallback_writes[OF assms] assms
  by (simp add: slot_def gc_fire_def split: option.splits)

theorem ClearCallback_frame_witness:
  "\<exists>w'. ClearCallback (call_on 1) world1 = (Inr Undefined, w')
           \<and> slot 1 w' = Some None
           \<and> w' = world3
           \<and> callback_states w' = callback_states world1
           \<and> persistents w' = persistents world1
           \<and> deleted_states w' = deleted_states world1
           \<and> thiz w' = thiz world1
           \<and> pending_exception w' = pending_exception world1
           \<and> (\<forall>h. h \<noteq> 1 \<longrightarrow> slot h w' = slot h world1)
           \<and> (\<forall>p. gc_fire p w' = None \<longleftrightarrow> gc_fire p world1 = None)"
  using ClearCallback_frame[of world1 "call_on 1"]
  by (simp add: world1_def world3_def call_on_def)

section \<open>The constructor\<close>

lemma ConstructorCallbackImpl_not_construct:
  "\<not> IsConstructCall a \<Longrightarrow>
   ConstructorCallbackImpl a w =
     (Inl (Throw (NativeScriptException ''WeakRef must be used as a construct call.'')), w)"
  by (simp add: ConstructorCallbackImpl_def throwM_def)

lemma ConstructorCallbackImpl_arity:
  "IsConstructCall a \<Longrightarrow> length (argv a) \<noteq> 1 \<Longrightarrow>
   ConstructorCallbackImpl a w =
     (Inl (Throw (NativeScriptException ''The WeakRef constructor expects single parameter.'')), w)"
  by (simp add: ConstructorCallbackImpl_def throwM_def)

lemma ConstructorCallbackImpl_not_object:
  "IsConstructCall a \<Longrightarrow> length (argv a) = 1 \<Longrightarrow> \<not> IsObject (argv a ! 0) \<Longrightarrow>
   ConstructorCallbackImpl a w =
     (Inl (Throw (NativeScriptException ''The WeakRef constructor expects an object argument.'')), w)"
  by (cases "argv a ! 0") (simp_all add: ConstructorCallbackImpl_def throwM_def)

lemma try_catch_caught:
  "body w = (Inl (Throw e), w') \<Longrightarrow>
   try_catch body (returnM d) w = (Inr d, w'\<lparr>pending_exception := Some (catch_message e)\<rparr>)"
  by (simp add: try_catch_def monad_defs ReThrowToV8_def)

lemma try_catch_normal:
  "body w = (Inr x, w') \<Longrightarrow> try_catch body after w = (Inr x, w')"
  by (simp add: try_catch_def)

lemma ConstructorCallbackImpl_success:
  assumes "faults w = []" "m_objectManager (thiz w) \<noteq> None"
    "cached_ok (m_poGetterFunc (thiz w)) w" "cached_ok (m_poClearFunc (thiz w)) w"
    "IsConstructCall a" "argv a = [Object x]"
  shows "\<exists>w'. ConstructorCallbackImpl a w = (Inr (Object (length (objects w))), w') \<and>
     length (objects w) < length (objects w') \<and>
     take (length (objects w)) (objects w') = objects w \<and>
     hidden (objects w' ! length (objects w)) = Some (Some (length (persistents w))) \<and>
     (\<exists>fg fc. props (objects w' ! length (objects w)) = [(''get'', Object fg), (''clear'', Object fc)]
        \<and> cached_fn (m_poGetterFunc (thiz w')) w' = Some fg
        \<and> cached_fn (m_poClearFunc (thiz w')) w' = Some fc
        \<and> (\<forall>f. cached_fn (m_poGetterFunc (thiz w)) w = Some f \<longrightarrow> fg = f)
        \<and> (\<forall>f. cached_fn (m_poClearFunc (thiz w)) w = Some f \<longrightarrow> fc = f)) \<and>
     m_objectManager (thiz w') = m_objectManager (thiz w) \<and>
     heap_lookup (persistents w') (length (persistents w)) =
        Some \<lparr>referent = Some x, weak = Some (length (callback_states w), WeakTargetCallback_fn)\<rparr> \<and>
     heap_lookup (persistents w') (Suc (length (persistents w))) =
        Some \<lparr>referent = Some (length (objects w)), weak = Some (length (callback_states w), WeakHolderCallback_fn)\<rparr> \<and>
     heap_lookup (callback_states w') (length (callback_states w)) =
        Some \<lparr>target = Some (length (persistents w)), holder = Some (Suc (length (persistents w)))\<rparr> \<and>
     deleted_states w' = deleted_states w \<and> faults w' = [] \<and> pending_exception w' = pending_exception w"
proof -
  obtain om where om: "m_objectManager (thiz w) = Some om" using assms(2) by auto
  note defs = ConstructorCallbackImpl_def GetGetterFunction_def GetClearFunction_def monad_defs
    prim_defs heap_lookup_append heap_lookup_Cons heap_lookup_Nil heap_update_def list_update_append
    cached_fn_def
  show ?thesis
  proof (cases "m_poGetterFunc (thiz w)")
    case None
    note g = this
    show ?thesis
    proof (cases "m_poClearFunc (thiz w)")
      case None
      show ?thesis using assms om g None by (simp add: defs)
    next
      case (Some pc)
      then obtain cper fc where "heap_lookup (persistents w) pc = Some cper"
        "referent cper = Some fc" "pc < length (persistents w)"
        using assms(4) by (auto simp: cached_ok_def split: option.splits dest: heap_lookup_SomeD)
      then show ?thesis using assms om g Some by (simp add: defs)
    qed
  next
    case (Some pg)
    note g = this
    then obtain gper fg where gp: "heap_lookup (persistents w) pg = Some gper"
      "referent gper = Some fg" "pg < length (persistents w)"
      using assms(3) by (auto simp: cached_ok_def split: option.splits dest: heap_lookup_SomeD)
    show ?thesis
    proof (cases "m_poClearFunc (thiz w)")
      case None
      show ?thesis using assms om g None gp by (simp add: defs)
    next
      case (Some pc)
      then obtain cper fc where "heap_lookup (persistents w) pc = Some cper"
        "referent cper = Some fc" "pc < length (persistents w)"
        using assms(4) by (auto simp: cached_ok_def split: option.splits dest: heap_lookup_SomeD)
      then show ?thesis using assms om g Some gp by (simp add: defs)
    qed
  qed
qed

text \<open>
  Claim C5 as stated fails where its cases overlap: a plain call without arguments has an
  arity other than 1, yet it fails with the message of a call that is not a construct call,
  because the constructor checks the kind of call first.
\<close>

theorem ConstructorCallbackImpl_plain_call_counterexample:
  "length (argv (plain_call [])) \<noteq> 1 \<and>
   ConstructorCallbackImpl (plain_call []) world0 =
     (Inl (Throw (NativeScriptException ''WeakRef must be used as a construct call.'')), world0) \<and>
   ConstructorCallbackImpl (plain_call []) world0 \<noteq>
     (Inl (Throw (NativeScriptException ''The WeakRef constructor expects single parameter.'')), world0)"
  by (simp add: plain_call_def ConstructorCallbackImpl_def throwM_def)

text \<open>
  Claim C5, amended. The constructor decides in this order. A call that is not a construct
  call fails with "WeakRef must be used as a construct call.", whatever its arguments. A
  construct call whose arity is not 1 fails with "The WeakRef constructor expects single
  parameter.". A construct call with one argument that is not an object fails with "The WeakRef
  constructor expects an object argument.". A construct call with exactly one object argument
  succeeds, when nothing outside fails and the controller is initialised, and returns a fresh
  holder: an object that did not exist before, all existing objects being kept. The code has
  no error kinds apart from these messages; each failure is a NativeScriptException thrown by
  \<open>ConstructorCallbackImpl\<close> that \<open>ConstructorCallback\<close> hands to the engine as the pending
  script exception.
\<close>

theorem ConstructorCallback_cases:
  "(IsConstructCall a \<and> argv a = [Object x] \<and> faults w = [] \<and> m_objectManager (thiz w) \<noteq> None
      \<and> cached_ok (m_poGetterFunc (thiz w)) w \<and> cached_ok (m_poClearFunc (thiz w)) w \<longrightarrow>
    (\<exists>w'. ConstructorCallback a w = (Inr (Object (length (objects w))), w')
        \<and> length (objects w) < length (objects w')
        \<and> take (length (objects w)) (objects w') = objects w
        \<and> pending_exception w' = pending_exception w)) \<and>
   (IsConstructCall a \<and> length (argv a) \<noteq> 1 \<longrightarrow>
      ConstructorCallbackImpl a w =
        (Inl (Throw (NativeScriptException ''The WeakRef constructor expects single parameter.'')), w)
      \<and> ConstructorCallback a w =
        (Inr Undefined, w\<lparr>pending_exception := Some ''The WeakRef constructor expects single parameter.''\<rparr>)) \<and>
   (IsConstructCall a \<and> length (argv a) = 1 \<and> \<not> IsObject (argv a ! 0) \<longrightarrow>
      ConstructorCallbackImpl a w =
        (Inl (Throw (NativeScriptException ''The WeakRef constructor expects an object argument.'')), w)
      \<and> ConstructorCallback a w =
        (Inr Undefined, w\<lparr>pending_exception := Some ''The WeakRef constructor expects an object argument.''\<rparr>)) \<and>
   (\<not> IsConstructCall a \<longrightarrow>
      ConstructorCallbackImpl a w =
        (Inl (Throw (NativeScriptException ''WeakRef must be used as a construct call.'')), w)
      \<and> ConstructorCallback a w =
        (Inr Undefined, w\<lparr>pending_exception := Some ''WeakRef must be used as a construct call.''\<rparr>))"
proof (intro conjI impI)
  assume pre: "IsConstructCall a \<and> argv a = [Object x] \<and> faults w = [] \<and> m_objectManager (thiz w) \<noteq> None
      \<and> cached_ok (m_poGetterFunc (thiz w)) w \<and> cached_ok (m_poClearFunc (thiz w)) w"
  then obtain w' where w': "ConstructorCallbackImpl a w = (Inr (Object (length (objects w))), w')"
    "length (objects w) < length (objects w')" "take (length (objects w)) (objects w') = objects w"
    "pending_exception w' = pending_exception w"
    using ConstructorCallbackImpl_success[of w a x] by blast
  then show "\<exists>w'. ConstructorCallback a w = (Inr (Object (length (objects w))), w')
        \<and> length (objects w) < length (objects w')
        \<and> take (length (objects w)) (objects w') = objects w
        \<and> pending_exception w' = pending_exception w"
    by (auto simp: ConstructorCallback_def try_catch_normal)
qed (simp_all add: ConstructorCallback_def ConstructorCallbackImpl_not_construct
      ConstructorCallbackImpl_arity ConstructorCallbackImpl_not_object try_catch_caught)

theorem ConstructorCallback_cases_witness:
  "(\<exists>w'. ConstructorCallback (new_call [Object 0]) world0 = (Inr (Object 1), w')
        \<and> 1 < length (objects w')
        \<and> take 1 (objects w') = objects world0
        \<and> pending_exception w' = None) \<and>
   ConstructorCallback (new_call []) world0 =
        (Inr Undefined, world0\<lparr>pending_exception := Some ''The WeakRef constructor expects single parameter.''\<rparr>) \<and>
   ConstructorCallback (new_call [Number 1, Number 2]) world0 =
        (Inr Undefined, world0\<lparr>pending_exception := Some ''The WeakRef constructor expects single parameter.''\<rparr>) \<and>
   ConstructorCallback (new_call [Number 5]) world0 =
        (Inr Undefined, world0\<lparr>pending_exception := Some ''The WeakRef constructor expects an object argument.''\<rparr>) \<and>
   ConstructorCallback (plain_call [Object 0]) world0 =
        (Inr Undefined, world0\<lparr>pending_exception := Some ''WeakRef must be used as a construct call.''\<rparr>)"
  using ConstructorCallback_cases[of "new_call [Object 0]" 0 world0]
    ConstructorCallback_cases[of "new_call []" 0 world0]
    ConstructorCallback_cases[of "new_call [Number 1, Number 2]" 0 world0]
    ConstructorCallback_cases[of "new_call [Number 5]" 0 world0]
    ConstructorCallback_cases[of "plain_call [Object 0]" 0 world0]
  by (simp add: new_call_def plain_call_def world0_def cached_ok_def)

text \<open>
  Claim C10. Whenever the call is not a construct call with exactly one object argument,
  in any world, \<open>ConstructorCallbackImpl\<close> throws one of the three validation messages and
  leaves the world exactly as it was: no object, handle or CallbackState is allocated and the
  controller's cached accessors are untouched. The entry point \<open>ConstructorCallback\<close> then
  changes nothing but the pending script exception.
\<close>

theorem ConstructorCallback_failure_atomic:
  assumes "\<not> (IsConstructCall a \<and> length (argv a) = 1 \<and> IsObject (argv a ! 0))"
  shows "\<exists>m. m \<in> {''WeakRef must be used as a construct call.'',
                  ''The WeakRef constructor expects single parameter.'',
                  ''The WeakRef constructor expects an object argument.''}
           \<and> ConstructorCallbackImpl a w = (Inl (Throw (NativeScriptException m)), w)
           \<and> ConstructorCallback a w = (Inr Undefined, w\<lparr>pending_exception := Some m\<rparr>)"
proof -
  consider "\<not> IsConstructCall a" | "IsConstructCall a" "length (argv a) \<noteq> 1"
    | "IsConstructCall a" "length (argv a) = 1" "\<not> IsObject (argv a ! 0)"
    using assms by blast
  then show ?thesis
  proof cases
    case 1
    then show ?thesis
      by (simp add: ConstructorCallback_def ConstructorCallbackImpl_not_construct try_catch_caught)
  next
    case 2
    then show ?thesis
      by (simp add: ConstructorCallback_def ConstructorCallbackImpl_arity try_catch_caught)
  next
    case 3
    then show ?thesis
      by (simp add: ConstructorCallback_def ConstructorCallbackImpl_not_object try_catch_caught)
  qed
qed

theorem ConstructorCallback_failure_atomic_witness:
  "\<exists>m. m \<in> {''WeakRef must be used as a construct call.'',
                  ''The WeakRef constructor expects single parameter.'',
                  ''The WeakRef constructor expects an object argument.''}
           \<and> ConstructorCallbackImpl (new_call [Number 5]) world1
                = (Inl (Throw (NativeScriptException m)), world1)
           \<and> ConstructorCallback (new_call [Number 5]) world1
                = (Inr Undefined, world1\<lparr>pending_exception := Some m\<rparr>)"
  using ConstructorCallback_failure_atomic[of "new_call [Number 5]" world1]
  by (simp add: new_call_def)

section \<open>get() after construction\<close>

lemma accessor_ok_cases:
  assumes "accessor_ok fn po w"
  obtains (empty) "po = None"
  | (cached) p per f where "po = Some p" "heap_lookup (persistents w) p = Some per"
      "referent per = Some f" "p < length (persistents w)" "f < length (objects w)"
      "callee (objects w ! f) = Some fn"
  using assms
  by (cases po) (auto simp: accessor_ok_def cached_fn_def split: option.splits dest: heap_lookup_SomeD)

lemma ConstructorCallbackImpl_installs:
  assumes "faults w = []" "m_objectManager (thiz w) \<noteq> None"
    "accessor_ok GettertCallback_fn (m_poGetterFunc (thiz w)) w"
    "accessor_ok ClearCallback_fn (m_poClearFunc (thiz w)) w"
    "IsConstructCall a" "argv a = [Object x]"
  shows "\<exists>w' fg fc. ConstructorCallbackImpl a w = (Inr (Object (length (objects w))), w') \<and>
     length (objects w) < length (objects w') \<and>
     props (objects w' ! length (objects w)) = [(''get'', Object fg), (''clear'', Object fc)] \<and>
     fg < length (objects w') \<and> callee (objects w' ! fg) = Some GettertCallback_fn \<and>
     fc < length (objects w') \<and> callee (objects w' ! fc) = Some ClearCallback_fn \<and>
     hidden (objects w' ! length (objects w)) = Some (Some (length (persistents w))) \<and>
     heap_lookup (persistents w') (length (persistents w)) =
        Some \<lparr>referent = Some x, weak = Some (length (callback_states w), WeakTargetCallback_fn)\<rparr> \<and>
     faults w' = [] \<and>
     accessor_ok GettertCallback_fn (m_poGetterFunc (thiz w')) w' \<and>
     accessor_ok ClearCallback_fn (m_poClearFunc (thiz w')) w'"
proof -
  obtain om where om: "m_objectManager (thiz w) = Some om" using assms(2) by auto
  note defs = ConstructorCallbackImpl_def GetGetterFunction_def GetClearFunction_def monad_defs
    prim_defs heap_lookup_append heap_lookup_Cons heap_lookup_Nil heap_update_def list_update_append
    cached_fn_def accessor_ok_def nth_append
  from assms(3) show ?thesis
  proof (cases rule: accessor_ok_cases)
    case empty
    note g = this
    from assms(4) show ?thesis
    proof (cases rule: accessor_ok_cases)
      case empty
      show ?thesis using assms(1,5,6) om g empty by (simp add: defs)
    next
      case (cached pc cper fc)
      then show ?thesis using assms(1,5,6) om g by (simp add: defs)
    qed
  next
    case (cached pg gper fg)
    note g = this
    from assms(4) show ?thesis
    proof (cases rule: accessor_ok_cases)
      case empty
      show ?thesis using assms(1,5,6) om g empty by (simp add: defs)
    next
      case (cached pc cper fc)
      then show ?thesis using assms(1,5,6) om g by (simp add: defs)
    qed
  qed
qed

lemma call_method_get:
  assumes "h < length (objects w)" and "map_of (props (objects w ! h)) ''get'' = Some (Object g)"
    and "g < length (objects w)" and "callee (objects w ! g) = Some GettertCallback_fn"
  shows "call_method h ''get'' w = Some (GettertCallback (call_on h) w)"
  using assms by (simp add: call_method_def)

text \<open>
  Claim C6. For every object \<open>x\<close>: a construct call with the single argument \<open>x\<close> (nothing
  outside failing, the controller initialised, its cached accessors in order) returns a
  holder \<open>h\<close> whose property \<open>get\<close> is a function object built from \<open>GettertCallback\<close> and
  whose hidden slot wraps the weak handle to \<open>x\<close>. The script call \<open>h.get()\<close>, in the world the
  constructor leaves, therefore runs \<open>GettertCallback\<close> with \<open>h\<close> as receiver, which
  resolves the handle and returns exactly \<open>x\<close>, changing nothing. The constructor leaves the
  cached accessors in order for the next construction. And in any world, whenever the hidden
  slot of the receiver holds the absent sentinel, \<open>GettertCallback\<close> returns null, and so does
  the script call \<open>get()\<close> on an object whose \<open>get\<close> is such a function.
\<close>

theorem get_after_construct:
  "(IsConstructCall a \<and> argv a = [Object x] \<and> faults w = [] \<and> m_objectManager (thiz w) \<noteq> None
      \<and> accessor_ok GettertCallback_fn (m_poGetterFunc (thiz w)) w
      \<and> accessor_ok ClearCallback_fn (m_poClearFunc (thiz w)) w \<longrightarrow>
    (\<exists>h w' tp tper fg. ConstructorCallback a w = (Inr (Object h), w')
        \<and> h < length (objects w')
        \<and> map_of (props (objects w' ! h)) ''get'' = Some (Object fg)
        \<and> fg < length (objects w') \<and> callee (objects w' ! fg) = Some GettertCallback_fn
        \<and> slot h w' = Some (Some tp)
        \<and> heap_lookup (persistents w') tp = Some tper \<and> referent tper = Some x
        \<and> call_method h ''get'' w' = Some (Inr (Object x), w')
        \<and> GettertCallback (call_on h) w' = (Inr (Object x), w')
        \<and> accessor_ok GettertCallback_fn (m_poGetterFunc (thiz w')) w'
        \<and> accessor_ok ClearCallback_fn (m_poClearFunc (thiz w')) w')) \<and>
   (faults v = [] \<and> slot (This args) v = Some None \<longrightarrow> GettertCallback args v = (Inr Null, v)) \<and>
   (faults v = [] \<and> slot r v = Some None
      \<and> map_of (props (objects v ! r)) ''get'' = Some (Object g)
      \<and> g < length (objects v) \<and> callee (objects v ! g) = Some GettertCallback_fn \<longrightarrow>
    call_method r ''get'' v = Some (Inr Null, v))"
proof (intro conjI impI)
  assume pre: "IsConstructCall a \<and> argv a = [Object x] \<and> faults w = [] \<and> m_objectManager (thiz w) \<noteq> None
      \<and> accessor_ok GettertCallback_fn (m_poGetterFunc (thiz w)) w
      \<and> accessor_ok ClearCallback_fn (m_poClearFunc (thiz w)) w"
  let ?h = "length (objects w)" and ?tp = "length (persistents w)"
  let ?tper = "\<lparr>referent = Some x, weak = Some (length (callback_states w), WeakTargetCallback_fn)\<rparr>"
  from pre have p: "faults w = []" "m_objectManager (thiz w) \<noteq> None"
    "accessor_ok GettertCallback_fn (m_poGetterFunc (thiz w)) w"
    "accessor_ok ClearCallback_fn (m_poClearFunc (thiz w)) w"
    "IsConstructCall a" "argv a = [Object x]" by simp_all
  from ConstructorCallbackImpl_installs[OF p] obtain w' fg fc where
    w': "ConstructorCallbackImpl a w = (Inr (Object ?h), w')"
      "?h < length (objects w')"
      "props (objects w' ! ?h) = [(''get'', Object fg), (''clear'', Object fc)]"
      "fg < length (objects w')" "callee (objects w' ! fg) = Some GettertCallback_fn"
      "hidden (objects w' ! ?h) = Some (Some ?tp)"
      "heap_lookup (persistents w') ?tp = Some ?tper" "faults w' = []"
      "accessor_ok GettertCallback_fn (m_poGetterFunc (thiz w')) w'"
      "accessor_ok ClearCallback_fn (m_poClearFunc (thiz w')) w'"
    by (elim exE conjE)
  have c: "ConstructorCallback a w = (Inr (Object ?h), w')"
    using w'(1) by (simp add: ConstructorCallback_def try_catch_normal)
  have pr: "map_of (props (objects w' ! ?h)) ''get'' = Some (Object fg)"
    using w'(3) by simp
  have sl: "slot ?h w' = Some (Some ?tp)" using w'(2,6) by (simp add: slot_def)
  have get: "GettertCallback (call_on ?h) w' = (Inr (Object x), w')"
    by (rule GettertCallback_live[where tp = ?tp and tper = ?tper])
       (use w' sl in \<open>simp_all add: This_call_on\<close>)
  have call: "call_method ?h ''get'' w' = Some (Inr (Object x), w')"
    using call_method_get[OF w'(2) pr w'(4,5)] get by simp
  show "\<exists>h w' tp tper fg. ConstructorCallback a w = (Inr (Object h), w')
        \<and> h < length (objects w')
        \<and> map_of (props (objects w' ! h)) ''get'' = Some (Object fg)
        \<and> fg < length (objects w') \<and> callee (objects w' ! fg) = Some GettertCallback_fn
        \<and> slot h w' = Some (Some tp)
        \<and> heap_lookup (persistents w') tp = Some tper \<and> referent tper = Some x
        \<and> call_method h ''get'' w' = Some (Inr (Object x), w')
        \<and> GettertCallback (call_on h) w' = (Inr (Object x), w')
        \<and> accessor_ok GettertCallback_fn (m_poGetterFunc (thiz w')) w'
        \<and> accessor_ok ClearCallback_fn (m_poClearFunc (thiz w')) w'"
    using c w'(2,4,5,7,9,10) pr sl get call
    by (intro exI[of _ ?h] exI[of _ w'] exI[of _ ?tp] exI[of _ ?tper] exI[of _ fg]) simp
next
  assume "faults v = [] \<and> slot (This args) v = Some None"
  then show "GettertCallback args v = (Inr Null, v)"
    by (simp add: GettertCallback_absent)
next
  assume pre: "faults v = [] \<and> slot r v = Some None
      \<and> map_of (props (objects v ! r)) ''get'' = Some (Object g)
      \<and> g < length (objects v) \<and> callee (objects v ! g) = Some GettertCallback_fn"
  then have r: "r < length (objects v)" by (simp add: slot_def split: if_splits)
  have "GettertCallback (call_on r) v = (Inr Null, v)"
    using pre by (simp add: GettertCallback_absent This_call_on)
  then show "call_method r ''get'' v = Some (Inr Null, v)"
    using call_method_get[OF r, of g] pre by simp
qed

theorem get_after_construct_witness:
  "ConstructorCallback (new_call [Object 0]) world0 = (Inr (Object 1), world1)
   \<and> map_of (props (objects world1 ! 1)) ''get'' = Some (Object 2)
   \<and> callee (objects world1 ! 2) = Some GettertCallback_fn
   \<and> slot 1 world1 = Some (Some 0)
   \<and> call_method 1 ''get'' world1 = Some (Inr (Object 0), world1)
   \<and> GettertCallback (call_on 1) world3 = (Inr Null, world3)
   \<and> call_method 1 ''get'' world3 = Some (Inr Null, world3)"
proof -
  have c: "ConstructorCallback (new_call [Object 0]) world0 = (Inr (Object 1), world1)"
    by (simp add: ConstructorCallback_def ConstructorCallbackImpl_def GetGetterFunction_def
      GetClearFunction_def monad_defs prim_defs new_call_def world0_def world1_def
      heap_lookup_def heap_update_def)
  have pre: "IsConstructCall (new_call [Object 0]) \<and> argv (new_call [Object 0]) = [Object 0]
      \<and> faults world0 = [] \<and> m_objectManager (thiz world0) \<noteq> None
      \<and> accessor_ok GettertCallback_fn (m_poGetterFunc (thiz world0)) world0
      \<and> accessor_ok ClearCallback_fn (m_poClearFunc (thiz world0)) world0"
    by (simp add: new_call_def world0_def accessor_ok_def cached_fn_def)
  from get_after_construct[THEN conjunct1, rule_format, OF pre]
  obtain h w' where 1: "ConstructorCallback (new_call [Object 0]) world0 = (Inr (Object h), w')"
    "call_method h ''get'' w' = Some (Inr (Object 0), w')"
    by blast
  from 1(1) c have "h = 1" "w' = world1" by simp_all
  with 1(2) have call: "call_method 1 ''get'' world1 = Some (Inr (Object 0), world1)" by simp
  have pre3: "faults world3 = [] \<and> slot 1 world3 = Some None
      \<and> map_of (props (objects world3 ! 1)) ''get'' = Some (Object 2)
      \<and> 2 < length (objects world3) \<and> callee (objects world3 ! 2) = Some GettertCallback_fn"
    by (simp add: world3_def slot_def)
  have abs: "faults world3 = [] \<and> slot (This (call_on 1)) world3 = Some None"
    by (simp add: world3_def slot_def call_on_def)
  have n1: "GettertCallback (call_on 1) world3 = (Inr Null, world3)"
    by (rule get_after_construct[THEN conjunct2, THEN conjunct1, rule_format, OF abs])
  have n2: "call_method 1 ''get'' world3 = Some (Inr Null, world3)"
    by (rule get_after_construct[THEN conjunct2, THEN conjunct2, rule_format, OF pre3])
  have facts: "map_of (props (objects world1 ! 1)) ''get'' = Some (Object 2)"
    "callee (objects world1 ! 2) = Some GettertCallback_fn" "slot 1 world1 = Some (Some 0)"
    by (simp_all add: world1_def slot_def)
  show ?thesis using c facts call n1 n2 by simp
qed

lemma ConstructorCallback_world0:
  "ConstructorCallback (new_call [Object 0]) world0 = (Inr (Object 1), world1)"
  by (simp add: ConstructorCallback_def ConstructorCallbackImpl_def GetGetterFunction_def
      GetClearFunction_def monad_defs prim_defs new_call_def world0_def world1_def
      heap_lookup_def heap_update_def)

section \<open>The cached accessor functions\<close>

lemma GetGetterFunction_first:
  assumes "faults w = []" and "m_poGetterFunc (thiz w) = None"
  shows "GetGetterFunction w =
           (Inr (Some (length (objects w))),
            w\<lparr>objects := objects w @ [\<lparr>props = [], hidden = None, callee = Some GettertCallback_fn\<rparr>],
              global_handles := length (persistents w) # global_handles w,
              persistents := persistents w @ [Some \<lparr>referent = Some (length (objects w)), weak = None\<rparr>],
              thiz := (thiz w)\<lparr>m_poGetterFunc := Some (length (persistents w))\<rparr>\<rparr>)"
  using assms by (simp add: GetGetterFunction_def monad_defs prim_defs)

lemma GetGetterFunction_cached:
  assumes "m_poGetterFunc (thiz w) = Some p" and "heap_lookup (persistents w) p = Some per"
  shows "GetGetterFunction w = (Inr (referent per), w)"
  using assms by (simp add: GetGetterFunction_def monad_defs prim_defs)

lemma GetClearFunction_first:
  assumes "faults w = []" and "m_poClearFunc (thiz w) = None"
  shows "GetClearFunction w =
           (Inr (Some (length (objects w))),
            w\<lparr>objects := objects w @ [\<lparr>props = [], hidden = None, callee = Some ClearCallback_fn\<rparr>],
              global_handles := length (persistents w) # global_handles w,
              persistents := persistents w @ [Some \<lparr>referent = Some (length (objects w)), weak = None\<rparr>],
              thiz := (thiz w)\<lparr>m_poClearFunc := Some (length (persistents w))\<rparr>\<rparr>)"
  using assms by (simp add: GetClearFunction_def monad_defs prim_defs)

lemma GetClearFunction_cached:
  assumes "m_poClearFunc (thiz w) = Some p" and "heap_lookup (persistents w) p = Some per"
  shows "GetClearFunction w = (Inr (referent per), w)"
  using assms by (simp add: GetClearFunction_def monad_defs prim_defs)

lemma cached_fn_SomeD:
  "cached_fn po w = Some f \<Longrightarrow>
   \<exists>p per. po = Some p \<and> heap_lookup (persistents w) p = Some per \<and> referent per = Some f"
  by (auto simp: cached_fn_def split: option.splits)

lemma cached_fn_ok: "cached_fn po w = Some f \<Longrightarrow> cached_ok po w"
  by (auto simp: cached_fn_def cached_ok_def split: option.splits)

section \<open>Fault boundaries\<close>

lemma try_catch_never_throws:
  assumes "\<And>v. fst (after v) \<noteq> Inl (Throw e)"
  shows "fst (try_catch body after w) \<noteq> Inl (Throw e)"
proof (cases "body w")
  case (Pair r w')
  show ?thesis
  proof (cases r)
    case (Inl ab)
    then show ?thesis using Pair assms[of "w'\<lparr>pending_exception := Some (catch_message x)\<rparr>" for x]
      by (cases ab) (auto simp: try_catch_def monad_defs ReThrowToV8_def)
  next
    case (Inr x)
    then show ?thesis using Pair by (simp add: try_catch_def)
  qed
qed

lemma guarded_entry_points_never_throw:
  "fst (ConstructorCallback a w) \<noteq> Inl (Throw e)"
  "fst (GettertCallback a w) \<noteq> Inl (Throw e)"
  "fst (ClearCallback a w) \<noteq> Inl (Throw e)"
  "fst (WeakHolderCallback c w) \<noteq> Inl (Throw e)"
  unfolding ConstructorCallback_def GettertCallback_def ClearCallback_def WeakHolderCallback_def
  by (rule try_catch_never_throws, simp add: returnM_def)+

text \<open>
  Claim C4 fails for the target callback, which has no try block. In \<open>world1_faulty\<close> the
  collector fires the target handle; the exception thrown under \<open>SetHiddenValue\<close> leaves
  \<open>WeakTargetCallback\<close> uncaught, no script exception is pending, and the target handle is
  already deleted while the hidden slot of the holder still wraps it. The holder callback, in
  the same world, catches the same exception and hands its message to the engine.
\<close>

theorem WeakTargetCallback_fault_escapes:
  "gc_fire 0 world1_faulty \<noteq> None \<and>
   fst (the (gc_fire 0 world1_faulty)) = Inl (Throw (NativeScriptException ''native fault'')) \<and>
   pending_exception (snd (the (gc_fire 0 world1_faulty))) = None \<and>
   released 0 (snd (the (gc_fire 0 world1_faulty))) \<and>
   slot 1 (snd (the (gc_fire 0 world1_faulty))) = Some (Some 0) \<and>
   fst (the (gc_fire 1 world1_faulty)) = Inr () \<and>
   pending_exception (snd (the (gc_fire 1 world1_faulty))) = Some ''native fault''"
  by (simp add: gc_fire_def world1_faulty_def world1_def WeakTargetCallback_def
      WeakHolderCallback_def monad_defs prim_defs heap_lookup_def heap_update_def heap_free_def
      released_def slot_def Let_def)

section \<open>Properties every function preserves\<close>

lemma preservesI: "(\<And>w. P w \<Longrightarrow> P (snd (m w))) \<Longrightarrow> preserves P m"
  by (simp add: preserves_def)

lemma preservesD: "preserves P m \<Longrightarrow> P w \<Longrightarrow> P (snd (m w))"
  by (simp add: preserves_def)

lemma preserves_returnM: "preserves P (returnM x)"
  by (simp add: preserves_def returnM_def)

lemma preserves_throwM: "preserves P (throwM e)"
  by (simp add: preserves_def throwM_def)

lemma preserves_crashM: "preserves P crashM"
  by (simp add: preserves_def crashM_def)

lemma preserves_bindM_yields:
  assumes "preserves P m" and "yields P m Q" and "\<And>x. Q x \<Longrightarrow> preserves P (f x)"
  shows "preserves P (bindM m f)"
proof (rule preservesI)
  fix w assume P: "P w"
  obtain r w' where m: "m w = (r, w')" by (cases "m w")
  have P': "P w'" using preservesD[OF assms(1) P] m by simp
  show "P (snd (bindM m f w))"
  proof (cases r)
    case (Inl a)
    then show ?thesis using m P' by (simp add: bindM_def)
  next
    case (Inr x)
    then have "Q x" using assms(2) P m by (auto simp: yields_def)
    then show ?thesis using Inr m preservesD[OF assms(3) P'] by (simp add: bindM_def)
  qed
qed

lemma yields_True: "yields P m (\<lambda>_. True)"
  by (simp add: yields_def)

lemma preserves_bindM: "preserves P m \<Longrightarrow> (\<And>x. preserves P (f x)) \<Longrightarrow> preserves P (bindM m f)"
  by (rule preserves_bindM_yields[where Q = "\<lambda>_. True"]) (simp_all add: yields_True)

lemma preserves_thenM: "preserves P m \<Longrightarrow> preserves P n \<Longrightarrow> preserves P (thenM m n)"
  by (simp add: thenM_def preserves_bindM)

lemma preserves_if:
  "(c \<Longrightarrow> preserves P m) \<Longrightarrow> (\<not> c \<Longrightarrow> preserves P n) \<Longrightarrow> preserves P (if c then m else n)"
  by simp

lemma preserves_case_option:
  "(x = None \<Longrightarrow> preserves P m) \<Longrightarrow> (\<And>y. x = Some y \<Longrightarrow> preserves P (f y)) \<Longrightarrow>
   preserves P (case x of None \<Rightarrow> m | Some y \<Rightarrow> f y)"
  by (cases x) simp_all

lemma preserves_read:
  "(\<And>v. preserves P (g v)) \<Longrightarrow> preserves P (\<lambda>w. g (r w) w)"
  by (simp add: preserves_def)

lemma preserves_try_catch:
  assumes "preserves P body" and "preserves P after"
    and "\<And>w v. P (w\<lparr>pending_exception := v\<rparr>) = P w"
  shows "preserves P (try_catch body after)"
proof (rule preservesI)
  fix w assume P: "P w"
  obtain r w' where b: "body w = (r, w')" by (cases "body w")
  have P': "P w'" using preservesD[OF assms(1) P] b by simp
  show "P (snd (try_catch body after w))"
  proof (cases r)
    case (Inr x)
    then show ?thesis using b P' by (simp add: try_catch_def)
  next
    case (Inl a)
    show ?thesis
    proof (cases a)
      case Crash
      then show ?thesis using Inl b P' by (simp add: try_catch_def)
    next
      case (Throw e)
      have "P (w'\<lparr>pending_exception := Some (catch_message e)\<rparr>)" using P' assms(3) by simp
      from preservesD[OF assms(2) this] show ?thesis
        using Inl Throw b by (simp add: try_catch_def thenM_def bindM_def ReThrowToV8_def)
    qed
  qed
qed

lemmas preserves_intros = preserves_returnM preserves_throwM preserves_crashM preserves_bindM
  preserves_thenM preserves_if preserves_case_option

lemma try_catch_at: "body w = body' w \<Longrightarrow> try_catch body after w = try_catch body' after w"
  by (simp add: try_catch_def)

text \<open>
  The functions of the file preserve whatever their primitive operations preserve, provided
  the property does not depend on the fields the functions assign directly.
\<close>

lemma preserves_GetGetterFunction:
  assumes "\<And>fn. preserves P (GetFunction fn)" and "\<And>ob. preserves P (new_Persistent ob)"
    and "\<And>po. preserves P (Local_New po)"
    and thiz: "\<And>w v. P (w\<lparr>thiz := v\<rparr>) = P w"
    and pend: "\<And>w v. P (w\<lparr>pending_exception := v\<rparr>) = P w"
  shows "preserves P GetGetterFunction"
proof (rule preservesI)
  fix w assume P: "P w"
  have st: "preserves P (\<lambda>w'. (Inr (), w'\<lparr>thiz := (thiz w')\<lparr>m_poGetterFunc := Some p\<rparr>\<rparr>))" for p
    by (simp add: preserves_def thiz)
  show "P (snd (GetGetterFunction w))"
  proof (cases "m_poGetterFunc (thiz w)")
    case None
    let ?body = "bindM (GetFunction GettertCallback_fn) (\<lambda>getterFunc.
             bindM (new_Persistent getterFunc) (\<lambda>p.
             thenM (\<lambda>w'. (Inr (), w'\<lparr>thiz := (thiz w')\<lparr>m_poGetterFunc := Some p\<rparr>\<rparr>))
             (returnM (Some getterFunc))))"
    have "GetGetterFunction w = try_catch ?body crashM w"
      unfolding GetGetterFunction_def by (rule try_catch_at) (simp add: None)
    moreover have "preserves P (try_catch ?body crashM)"
      by (intro preserves_try_catch preserves_intros assms st)
    ultimately show ?thesis using P by (simp add: preserves_def)
  next
    case (Some p)
    have "GetGetterFunction w = try_catch (Local_New (Some p)) crashM w"
      unfolding GetGetterFunction_def by (rule try_catch_at) (simp add: Some)
    moreover have "preserves P (try_catch (Local_New (Some p)) crashM)"
      by (intro preserves_try_catch preserves_intros assms)
    ultimately show ?thesis using P by (simp add: preserves_def)
  qed
qed

lemma preserves_GetClearFunction:
  assumes "\<And>fn. preserves P (GetFunction fn)" and "\<And>ob. preserves P (new_Persistent ob)"
    and "\<And>po. preserves P (Local_New po)"
    and thiz: "\<And>w v. P (w\<lparr>thiz := v\<rparr>) = P w"
    and pend: "\<And>w v. P (w\<lparr>pending_exception := v\<rparr>) = P w"
  shows "preserves P GetClearFunction"
proof (rule preservesI)
  fix w assume P: "P w"
  have st: "preserves P (\<lambda>w'. (Inr (), w'\<lparr>thiz := (thiz w')\<lparr>m_poClearFunc := Some p\<rparr>\<rparr>))" for p
    by (simp add: preserves_def thiz)
  show "P (snd (GetClearFunction w))"
  proof (cases "m_poClearFunc (thiz w)")
    case None
    let ?body = "bindM (GetFunction ClearCallback_fn) (\<lambda>clearFunc.
             bindM (new_Persistent clearFunc) (\<lambda>p.
             thenM (\<lambda>w'. (Inr (), w'\<lparr>thiz := (thiz w')\<lparr>m_poClearFunc := Some p\<rparr>\<rparr>))
             (returnM (Some clearFunc))))"
    have "GetClearFunction w = try_catch ?body crashM w"
      unfolding GetClearFunction_def by (rule try_catch_at) (simp add: None)
    moreover have "preserves P (try_catch ?body crashM)"
      by (intro preserves_try_catch preserves_intros assms st)
    ultimately show ?thesis using P by (simp add: preserves_def)
  next
    case (Some p)
    have "GetClearFunction w = try_catch (Local_New (Some p)) crashM w"
      unfolding GetClearFunction_def by (rule try_catch_at) (simp add: Some)
    moreover have "preserves P (try_catch (Local_New (Some p)) crashM)"
      by (intro preserves_try_catch preserves_intros assms)
    ultimately show ?thesis using P by (simp add: preserves_def)
  qed
qed

lemma preserves_ConstructorCallbackImpl:
  assumes "preserves P GetEmptyObject" and "yields P GetEmptyObject Q"
    and "\<And>ob. preserves P (new_Persistent ob)"
    and "\<And>p q. preserves P (new_CallbackState p q)"
    and "\<And>po c cb. preserves P (SetWeak po c cb)"
    and "\<And>ob name fo. preserves P (ObjectSet ob name fo)"
    and "preserves P GetGetterFunction" and "preserves P GetClearFunction"
    and "\<And>weakRef p. Q weakRef \<Longrightarrow> preserves P (SetHiddenValue (Some weakRef) (Some p))"
  shows "preserves P (ConstructorCallbackImpl a)"
proof (cases "IsConstructCall a \<and> length (argv a) = 1")
  case False
  then show ?thesis by (auto simp: ConstructorCallbackImpl_def preserves_throwM)
next
  case True
  show ?thesis
  proof (cases "argv a ! 0")
    case (Object targetObj)
    show ?thesis
      unfolding ConstructorCallbackImpl_def using True Object
      apply simp
      apply (rule preserves_bindM_yields[OF assms(1,2)])
      apply (intro preserves_intros assms)
      apply assumption
      done
  qed (use True in \<open>simp_all add: ConstructorCallbackImpl_def preserves_throwM\<close>)
qed

lemma preserves_ConstructorCallback:
  assumes "preserves P (ConstructorCallbackImpl a)"
    and "\<And>w v. P (w\<lparr>pending_exception := v\<rparr>) = P w"
  shows "preserves P (ConstructorCallback a)"
  unfolding ConstructorCallback_def by (intro preserves_try_catch preserves_intros assms)

lemma preserves_GettertCallback:
  assumes "\<And>obj. preserves P (GetHiddenValue obj)" and "\<And>po. preserves P (Local_New po)"
    and "\<And>w v. P (w\<lparr>pending_exception := v\<rparr>) = P w"
  shows "preserves P (GettertCallback a)"
  unfolding GettertCallback_def by (intro preserves_try_catch preserves_intros assms)

lemma preserves_ClearCallback:
  assumes "\<And>obj. preserves P (SetHiddenValue obj None)"
    and "\<And>w v. P (w\<lparr>pending_exception := v\<rparr>) = P w"
  shows "preserves P (ClearCallback a)"
  unfolding ClearCallback_def by (intro preserves_try_catch preserves_intros assms)

lemma preserves_WeakTargetCallback:
  assumes "\<And>c. preserves P (read_state c)" and "\<And>po. preserves P (Reset po)"
    and "\<And>po. preserves P (delete_Persistent po)" and "\<And>c v. preserves P (set_target c v)"
    and "\<And>po. preserves P (Local_New po)" and "\<And>obj. preserves P (SetHiddenValue obj None)"
    and "\<And>c. preserves P (delete_CallbackState c)"
  shows "preserves P (WeakTargetCallback c)"
  unfolding WeakTargetCallback_def Let_def by (intro preserves_intros assms)

lemma preserves_WeakHolderCallback:
  assumes "\<And>c. preserves P (read_state c)" and "\<And>po. preserves P (Reset po)"
    and "\<And>po. preserves P (delete_Persistent po)" and "\<And>c v. preserves P (set_holder c v)"
    and "\<And>po. preserves P (Local_New po)" and "\<And>obj. preserves P (GetHiddenValue obj)"
    and "\<And>po c cb. preserves P (SetWeak po c cb)"
    and "\<And>c. preserves P (delete_CallbackState c)"
    and "\<And>w v. P (w\<lparr>pending_exception := v\<rparr>) = P w"
  shows "preserves P (WeakHolderCallback c)"
  unfolding WeakHolderCallback_def Let_def by (intro preserves_try_catch preserves_intros assms)

text \<open>A property all five entry points preserve holds along every run.\<close>

lemma step_preserves:
  assumes "\<And>a. preserves P (ConstructorCallback a)" and "\<And>a. preserves P (GettertCallback a)"
    and "\<And>a. preserves P (ClearCallback a)" and "\<And>c. preserves P (WeakTargetCallback c)"
    and "\<And>c. preserves P (WeakHolderCallback c)"
    and pers: "\<And>w p per. P w \<Longrightarrow> heap_lookup (persistents w) p = Some per \<Longrightarrow>
                 P (w\<lparr>persistents := heap_update p (per\<lparr>weak := None\<rparr>) (persistents w)\<rparr>)"
    and "P w" and "step e w = Some (r, w')"
  shows "P w'"
proof (cases e)
  case (Construct a)
  then show ?thesis using assms(8) preservesD[OF assms(1) \<open>P w\<close>, of a]
    by (auto simp: forget_def split: prod.splits sum.splits)
next
  case (CallGet h)
  then show ?thesis using assms(8) preservesD[OF assms(2) \<open>P w\<close>, of "call_on h"]
    by (auto simp: forget_def split: prod.splits sum.splits)
next
  case (CallClear h)
  then show ?thesis using assms(8) preservesD[OF assms(3) \<open>P w\<close>, of "call_on h"]
    by (auto simp: forget_def split: prod.splits sum.splits)
next
  case (Collect p)
  with assms(8) obtain per c cb where f: "heap_lookup (persistents w) p = Some per"
    "weak per = Some (c, cb)"
    "(r, w') = invoke_weak cb c (w\<lparr>persistents := heap_update p (per\<lparr>weak := None\<rparr>) (persistents w)\<rparr>)"
    by (auto simp: gc_fire_def split: option.splits)
  let ?w1 = "w\<lparr>persistents := heap_update p (per\<lparr>weak := None\<rparr>) (persistents w)\<rparr>"
  have P1: "P ?w1" using pers[OF \<open>P w\<close> f(1)] .
  show ?thesis
  proof (cases cb)
    case WeakTargetCallback_fn
    then show ?thesis using f(3) preservesD[OF assms(4) P1, of c] by (metis invoke_weak.simps(1) snd_conv)
  next
    case WeakHolderCallback_fn
    then show ?thesis using f(3) preservesD[OF assms(5) P1, of c] by (metis invoke_weak.simps(2) snd_conv)
  qed
qed

lemma run_preserves:
  assumes "\<And>a. preserves P (ConstructorCallback a)" and "\<And>a. preserves P (GettertCallback a)"
    and "\<And>a. preserves P (ClearCallback a)" and "\<And>c. preserves P (WeakTargetCallback c)"
    and "\<And>c. preserves P (WeakHolderCallback c)"
    and pers: "\<And>w p per. P w \<Longrightarrow> heap_lookup (persistents w) p = Some per \<Longrightarrow>
                 P (w\<lparr>persistents := heap_update p (per\<lparr>weak := None\<rparr>) (persistents w)\<rparr>)"
  shows "P w \<Longrightarrow> run evs w = Some (Inr w') \<Longrightarrow> P w'"
proof (induction evs arbitrary: w)
  case Nil
  then show ?case by simp
next
  case (Cons e es)
  from Cons.prems(2) obtain u w1 where s: "step e w = Some (Inr u, w1)" and r: "run es w1 = Some (Inr w')"
    by (auto split: option.splits prod.splits sum.splits)
  have "P w1" by (rule step_preserves[OF assms Cons.prems(1) s])
  then show ?case using Cons.IH r by simp
qed

subsection \<open>The injected faults never change\<close>

lemma keeps_faults_prims:
  "preserves (\<lambda>w. faults w = F) (call_ext opn)"
  "preserves (\<lambda>w. faults w = F) GetEmptyObject"
  "preserves (\<lambda>w. faults w = F) (GetFunction fn)"
  "preserves (\<lambda>w. faults w = F) (new_Persistent ob)"
  "preserves (\<lambda>w. faults w = F) (new_CallbackState p q)"
  "preserves (\<lambda>w. faults w = F) (SetWeak po c cb)"
  "preserves (\<lambda>w. faults w = F) (Reset po)"
  "preserves (\<lambda>w. faults w = F) (delete_Persistent po)"
  "preserves (\<lambda>w. faults w = F) (Local_New po)"
  "preserves (\<lambda>w. faults w = F) (read_state c)"
  "preserves (\<lambda>w. faults w = F) (set_target c v)"
  "preserves (\<lambda>w. faults w = F) (set_holder c v)"
  "preserves (\<lambda>w. faults w = F) (delete_CallbackState c)"
  "preserves (\<lambda>w. faults w = F) (SetHiddenValue obj v)"
  "preserves (\<lambda>w. faults w = F) (GetHiddenValue obj)"
  "preserves (\<lambda>w. faults w = F) (ObjectSet ob name fo)"
  by (auto simp: preserves_def prim_defs monad_defs split: option.splits sum.splits prod.splits if_splits)




lemma keeps_faults:
  "preserves (\<lambda>w. faults w = F) (ConstructorCallback a)"
  "preserves (\<lambda>w. faults w = F) (GettertCallback a)"
  "preserves (\<lambda>w. faults w = F) (ClearCallback a)"
  "preserves (\<lambda>w. faults w = F) (WeakTargetCallback c)"
  "preserves (\<lambda>w. faults w = F) (WeakHolderCallback c)"
  by (intro preserves_ConstructorCallback preserves_ConstructorCallbackImpl[where Q = "\<lambda>_. True"]
      preserves_GettertCallback preserves_ClearCallback preserves_WeakTargetCallback
      preserves_WeakHolderCallback preserves_GetGetterFunction preserves_GetClearFunction
      keeps_faults_prims yields_True; simp)+

subsection \<open>Only the two weak callbacks free a CallbackState\<close>

lemma keeps_log_prims:
  "preserves (\<lambda>w. deleted_states w = L) (call_ext opn)"
  "preserves (\<lambda>w. deleted_states w = L) GetEmptyObject"
  "preserves (\<lambda>w. deleted_states w = L) (GetFunction fn)"
  "preserves (\<lambda>w. deleted_states w = L) (new_Persistent ob)"
  "preserves (\<lambda>w. deleted_states w = L) (new_CallbackState p q)"
  "preserves (\<lambda>w. deleted_states w = L) (SetWeak po c cb)"
  "preserves (\<lambda>w. deleted_states w = L) (Local_New po)"
  "preserves (\<lambda>w. deleted_states w = L) (SetHiddenValue obj v)"
  "preserves (\<lambda>w. deleted_states w = L) (GetHiddenValue obj)"
  "preserves (\<lambda>w. deleted_states w = L) (ObjectSet ob name fo)"
  by (auto simp: preserves_def prim_defs monad_defs split: option.splits sum.splits prod.splits if_splits)

lemma keeps_log:
  "preserves (\<lambda>w. deleted_states w = L) (ConstructorCallback a)"
  "preserves (\<lambda>w. deleted_states w = L) (GettertCallback a)"
  "preserves (\<lambda>w. deleted_states w = L) (ClearCallback a)"
  by (intro preserves_ConstructorCallback preserves_ConstructorCallbackImpl[where Q = "\<lambda>_. True"]
      preserves_GettertCallback preserves_ClearCallback preserves_GetGetterFunction
      preserves_GetClearFunction keeps_log_prims yields_True; simp)+

subsection \<open>An absent hidden slot stays absent\<close>

lemma keeps_absent_prims:
  "preserves (\<lambda>w. slot h w = Some None) (call_ext opn)"
  "preserves (\<lambda>w. slot h w = Some None) GetEmptyObject"
  "preserves (\<lambda>w. slot h w = Some None) (GetFunction fn)"
  "preserves (\<lambda>w. slot h w = Some None) (new_Persistent ob)"
  "preserves (\<lambda>w. slot h w = Some None) (new_CallbackState p q)"
  "preserves (\<lambda>w. slot h w = Some None) (SetWeak po c cb)"
  "preserves (\<lambda>w. slot h w = Some None) (Reset po)"
  "preserves (\<lambda>w. slot h w = Some None) (delete_Persistent po)"
  "preserves (\<lambda>w. slot h w = Some None) (Local_New po)"
  "preserves (\<lambda>w. slot h w = Some None) (read_state c)"
  "preserves (\<lambda>w. slot h w = Some None) (set_target c v)"
  "preserves (\<lambda>w. slot h w = Some None) (set_holder c v)"
  "preserves (\<lambda>w. slot h w = Some None) (delete_CallbackState c)"
  "preserves (\<lambda>w. slot h w = Some None) (SetHiddenValue obj None)"
  "preserves (\<lambda>w. slot h w = Some None) (GetHiddenValue obj)"
  "preserves (\<lambda>w. slot h w = Some None) (ObjectSet ob name fo)"
  by (auto simp: preserves_def prim_defs monad_defs slot_def nth_append nth_list_update
      split: option.splits sum.splits prod.splits if_splits)

lemma keeps_absent_fresh:
  "weakRef \<noteq> h \<Longrightarrow> preserves (\<lambda>w. slot h w = Some None) (SetHiddenValue (Some weakRef) v)"
  by (auto simp: preserves_def prim_defs monad_defs slot_def nth_list_update
      split: option.splits sum.splits prod.splits if_splits)

lemma GetEmptyObject_yields_fresh:
  "yields (\<lambda>w. slot h w = Some None) GetEmptyObject (\<lambda>x. x \<noteq> h)"
  by (auto simp: yields_def prim_defs monad_defs slot_def
      split: option.splits sum.splits prod.splits if_splits)

lemma keeps_absent:
  "preserves (\<lambda>w. slot h w = Some None) (ConstructorCallback a)"
  "preserves (\<lambda>w. slot h w = Some None) (GettertCallback a)"
  "preserves (\<lambda>w. slot h w = Some None) (ClearCallback a)"
  "preserves (\<lambda>w. slot h w = Some None) (WeakTargetCallback c)"
  "preserves (\<lambda>w. slot h w = Some None) (WeakHolderCallback c)"
  by (intro preserves_ConstructorCallback
      preserves_ConstructorCallbackImpl[where Q = "\<lambda>x. x \<noteq> h"]
      preserves_GettertCallback preserves_ClearCallback preserves_WeakTargetCallback
      preserves_WeakHolderCallback preserves_GetGetterFunction preserves_GetClearFunction
      keeps_absent_prims GetEmptyObject_yields_fresh keeps_absent_fresh; simp add: slot_def)+

lemma run_keeps_faults: "faults w = F \<Longrightarrow> run evs w = Some (Inr w') \<Longrightarrow> faults w' = F"
  by (rule run_preserves[where P = "\<lambda>w. faults w = F"]) (simp_all add: keeps_faults)

lemma run_keeps_absent:
  "slot h w = Some None \<Longrightarrow> run evs w = Some (Inr w') \<Longrightarrow> slot h w' = Some None"
  by (rule run_preserves[where P = "\<lambda>w. slot h w = Some None"];
      (rule keeps_absent | simp add: slot_def split: if_splits))

lemma run_replicate_get:
  assumes "faults w = []" and "slot h w = Some None"
  shows "run (replicate n (CallGet h)) w = Some (Inr w)"
  by (induction n) (simp_all add: GettertCallback_absent[OF assms(1)] assms(2) This_call_on forget_def)

text \<open>
  Claim C7. After \<open>clear()\<close> on a holder, \<open>get()\<close> on it returns null, and it still returns
  null after every further sequence of events of the system: constructions, collector
  callbacks on any handle, and \<open>get()\<close> and \<open>clear()\<close> calls on any object. The target need not
  have been collected. And whenever the hidden slot holds the absent sentinel, because of
  \<open>clear()\<close> or because the target callback has run, any number of \<open>get()\<close> calls return null and
  leave the world exactly as it was.
\<close>

theorem get_null_after_clear:
  "(faults w = [] \<and> h < length (objects w) \<longrightarrow>
      (\<exists>w1. ClearCallback (call_on h) w = (Inr Undefined, w1)
          \<and> GettertCallback (call_on h) w1 = (Inr Null, w1)
          \<and> (\<forall>evs w2. run evs w1 = Some (Inr w2) \<longrightarrow>
                GettertCallback (call_on h) w2 = (Inr Null, w2)))) \<and>
   (faults w = [] \<and> slot h w = Some None \<longrightarrow>
      GettertCallback (call_on h) w = (Inr Null, w)
      \<and> (\<forall>n. run (replicate n (CallGet h)) w = Some (Inr w))
      \<and> (\<forall>evs w2. run evs w = Some (Inr w2) \<longrightarrow>
            GettertCallback (call_on h) w2 = (Inr Null, w2)))"
proof -
  have later: "GettertCallback (call_on h) w2 = (Inr Null, w2)"
    if "faults v = []" "slot h v = Some None" "run evs v = Some (Inr w2)" for v evs w2
    using run_keeps_faults[OF that(1,3)] run_keeps_absent[OF that(2,3)]
    by (simp add: GettertCallback_absent This_call_on)
  show ?thesis
  proof (intro conjI impI allI)
    assume pre: "faults w = [] \<and> h < length (objects w)"
    let ?w1 = "w\<lparr>objects := (objects w)[h := (objects w ! h)\<lparr>hidden := Some None\<rparr>]\<rparr>"
    have c: "ClearCallback (call_on h) w = (Inr Undefined, ?w1)"
      using ClearCallback_writes[of w "call_on h"] pre by (simp add: This_call_on)
    have f: "faults ?w1 = []" and s: "slot h ?w1 = Some None"
      using pre by (simp_all add: slot_def)
    show "\<exists>w1. ClearCallback (call_on h) w = (Inr Undefined, w1)
          \<and> GettertCallback (call_on h) w1 = (Inr Null, w1)
          \<and> (\<forall>evs w2. run evs w1 = Some (Inr w2) \<longrightarrow>
                GettertCallback (call_on h) w2 = (Inr Null, w2))"
      using c later[OF f s] GettertCallback_absent[of ?w1 "call_on h"] f s
      by (intro exI[of _ ?w1]) (simp add: This_call_on)
  next
    assume pre: "faults w = [] \<and> slot h w = Some None"
    then show "GettertCallback (call_on h) w = (Inr Null, w)"
      by (simp add: GettertCallback_absent This_call_on)
  next
    fix n assume "faults w = [] \<and> slot h w = Some None"
    then show "run (replicate n (CallGet h)) w = Some (Inr w)"
      by (simp add: run_replicate_get)
  next
    fix evs w2
    assume "faults w = [] \<and> slot h w = Some None" and "run evs w = Some (Inr w2)"
    then show "GettertCallback (call_on h) w2 = (Inr Null, w2)"
      using later by blast
  qed
qed

lemma run_world3: "run [Collect 1, CallGet 1, Collect 0] world3 = Some (Inr world5)"
  by (simp add: world3_def world5_def gc_fire_def WeakTargetCallback_def WeakHolderCallback_def
      GettertCallback_def call_on_def forget_def monad_defs prim_defs heap_lookup_def
      heap_update_def heap_free_def Let_def)

theorem get_null_after_clear_witness:
  "ClearCallback (call_on 1) world1 = (Inr Undefined, world3)
   \<and> GettertCallback (call_on 1) world3 = (Inr Null, world3)
   \<and> run [Collect 1, CallGet 1, Collect 0] world3 = Some (Inr world5)
   \<and> GettertCallback (call_on 1) world5 = (Inr Null, world5)
   \<and> run (replicate 3 (CallGet 1)) world4 = Some (Inr world4)"
proof -
  have c: "ClearCallback (call_on 1) world1 = (Inr Undefined, world3)"
    by (simp add: ClearCallback_writes call_on_def world1_def world3_def)
  from get_null_after_clear[of world1 1]
  have 1: "GettertCallback (call_on 1) world3 = (Inr Null, world3)"
    and 2: "\<And>evs w2. run evs world3 = Some (Inr w2) \<Longrightarrow>
              GettertCallback (call_on 1) w2 = (Inr Null, w2)"
    unfolding c by (simp_all add: world1_def)
  from get_null_after_clear[of world4 1]
  have 3: "run (replicate 3 (CallGet 1)) world4 = Some (Inr world4)"
    by (simp add: world4_def slot_def)
  show ?thesis using c 1 2[OF run_world3] 3 run_world3 by simp
qed

section \<open>The life cycle of one CallbackState\<close>

lemma GettertCallback_resolves:
  assumes "faults w = []" and "slot (This args) w = Some (Some tp)"
    and "heap_lookup (persistents w) tp = Some tper"
  shows "GettertCallback args w =
           (Inr (case referent tper of Some t \<Rightarrow> Object t | None \<Rightarrow> Undefined), w)"
  using assms
  by (simp add: GettertCallback_def slot_def monad_defs prim_defs split: if_splits)

lemma slot_Some_iff:
  "slot h w = Some s \<longleftrightarrow> h < length (objects w) \<and> hidden (objects w ! h) = Some s"
  by (simp add: slot_def)

lemma slot_SomeD: "slot h w = Some s \<Longrightarrow> h < length (objects w) \<and> hidden (objects w ! h) = Some s"
  by (simp add: slot_def split: if_splits)

lemma armedD:
  "armed p c cb w \<Longrightarrow> \<exists>per. heap_lookup (persistents w) p = Some per \<and> weak per = Some (c, cb)"
  by (auto simp: armed_def split: option.splits)

lemma holder_registeredD:
  "holder_registered i w \<Longrightarrow>
   \<exists>per. heap_lookup (persistents w) (holder_of i) = Some per
        \<and> referent per = Some (object_of i)
        \<and> weak per = Some (state_of i, WeakHolderCallback_fn)"
  by (auto simp: holder_registered_def split: option.splits)

lemma gc_fire_released: "released p w \<Longrightarrow> gc_fire p w = None"
  by (simp add: released_def gc_fire_def)

lemma gc_fire_armed:
  assumes "heap_lookup (persistents w) p = Some per" and "weak per = Some (c, cb)"
  shows "gc_fire p w =
           Some (invoke_weak cb c
                   (w\<lparr>persistents := heap_update p (per\<lparr>weak := None\<rparr>) (persistents w)\<rparr>))"
  using assms by (simp add: gc_fire_def)

text \<open>The target callback: from Active to TargetGone, from HolderGoneTargetLive to BothGone.\<close>

lemma target_fire_Active:
  assumes ph: "in_phase i Active w" and ne: "target_of i \<noteq> holder_of i" and nf: "faults w = []"
  shows "\<exists>w'. gc_fire (target_of i) w = Some (Inr (), w') \<and> in_phase i TargetGone w' \<and> faults w' = []"
proof -
  let ?c = "state_of i" and ?tp = "target_of i" and ?hp = "holder_of i" and ?h = "object_of i"
  let ?cs = "\<lparr>target = Some ?tp, holder = Some ?hp\<rparr>"
  from ph have cs: "heap_lookup (callback_states w) ?c = Some ?cs"
    and cnt: "count_list (deleted_states w) ?c = 0" by simp_all
  from ph obtain tper where tper: "heap_lookup (persistents w) ?tp = Some tper"
    "weak tper = Some (?c, WeakTargetCallback_fn)" by (auto dest: armedD)
  from ph obtain hper where hper: "heap_lookup (persistents w) ?hp = Some hper"
    "referent hper = Some ?h" "weak hper = Some (?c, WeakHolderCallback_fn)"
    by (auto dest: holder_registeredD)
  from ph have h: "?h < length (objects w)" by (auto dest: slot_SomeD)
  let ?w1 = "w\<lparr>persistents := heap_update ?tp (tper\<lparr>weak := None\<rparr>) (persistents w)\<rparr>"
  let ?w' = "?w1\<lparr>global_handles := removeAll ?tp (global_handles ?w1),
                persistents := heap_free ?tp (persistents ?w1),
                callback_states := heap_update ?c (?cs\<lparr>target := None\<rparr>) (callback_states ?w1),
                objects := (objects ?w1)[?h := (objects ?w1 ! ?h)\<lparr>hidden := Some None\<rparr>]\<rparr>"
  have nf1: "faults ?w1 = []" and cs1: "heap_lookup (callback_states ?w1) ?c = Some ?cs"
    and h1: "?h < length (objects ?w1)"
    using nf cs h by simp_all
  have tp1: "heap_lookup (persistents ?w1) ?tp = Some (tper\<lparr>weak := None\<rparr>)"
    using heap_lookup_SomeD[OF tper(1)] by (simp add: heap_lookup_update)
  have hp1: "heap_lookup (persistents ?w1) ?hp = Some hper"
    using hper(1) ne by (simp add: heap_lookup_update)
  have "WeakTargetCallback ?c ?w1 = (Inr (), ?w')"
    using WeakTargetCallback_holder_live[OF nf1 cs1 _ _ tp1 hp1 ne hper(2) h1] by simp
  then have fire: "gc_fire ?tp w = Some (Inr (), ?w')"
    using gc_fire_armed[OF tper] by simp
  have "in_phase i TargetGone ?w'"
    using cs cnt hper ne h heap_lookup_SomeD[OF cs]
    by (simp add: released_def holder_registered_def slot_Some_iff heap_lookup_update heap_lookup_free)
  with fire nf show ?thesis by (intro exI[of _ ?w']) simp
qed

lemma target_fire_HolderGone:
  assumes ph: "in_phase i HolderGoneTargetLive w" and ne: "target_of i \<noteq> holder_of i"
    and nf: "faults w = []"
  shows "\<exists>w'. gc_fire (target_of i) w = Some (Inr (), w') \<and> in_phase i BothGone w' \<and> faults w' = []"
proof -
  let ?c = "state_of i" and ?tp = "target_of i" and ?hp = "holder_of i" and ?h = "object_of i"
  let ?cs = "\<lparr>target = Some ?tp, holder = None\<rparr>"
  from ph have cs: "heap_lookup (callback_states w) ?c = Some ?cs"
    and cnt: "count_list (deleted_states w) ?c = 0"
    and rel: "released ?hp w" and sl: "slot ?h w = Some None" by simp_all
  from ph obtain tper where tper: "heap_lookup (persistents w) ?tp = Some tper"
    "weak tper = Some (?c, WeakTargetCallback_fn)" by (auto dest: armedD)
  let ?w1 = "w\<lparr>persistents := heap_update ?tp (tper\<lparr>weak := None\<rparr>) (persistents w)\<rparr>"
  let ?w' = "?w1\<lparr>global_handles := removeAll ?tp (global_handles ?w1),
                persistents := heap_free ?tp (persistents ?w1),
                callback_states := heap_free ?c (callback_states ?w1),
                deleted_states := ?c # deleted_states ?w1\<rparr>"
  have nf1: "faults ?w1 = []" and cs1: "heap_lookup (callback_states ?w1) ?c = Some ?cs"
    using nf cs by simp_all
  have tp1: "heap_lookup (persistents ?w1) ?tp = Some (tper\<lparr>weak := None\<rparr>)"
    using heap_lookup_SomeD[OF tper(1)] by (simp add: heap_lookup_update)
  have "WeakTargetCallback ?c ?w1 = (Inr (), ?w')"
    using WeakTargetCallback_holder_gone[OF nf1 cs1 _ _ tp1] by simp
  then have fire: "gc_fire ?tp w = Some (Inr (), ?w')"
    using gc_fire_armed[OF tper] by simp
  have "in_phase i BothGone ?w'"
    using cnt rel sl ne
    by (simp add: released_def slot_Some_iff heap_lookup_update heap_lookup_free)
  with fire nf show ?thesis by (intro exI[of _ ?w']) simp
qed

text \<open>
  The holder callback: it re-arms while the slot wraps a pointer, and otherwise goes from
  Active to HolderGoneTargetLive and from TargetGone to BothGone.
\<close>

lemma holder_fire_Active:
  assumes ph: "in_phase i Active w" and ne: "target_of i \<noteq> holder_of i" and nf: "faults w = []"
  shows "\<exists>w'. gc_fire (holder_of i) w = Some (Inr (), w') \<and> faults w' = []
           \<and> (if slot (object_of i) w = Some None then in_phase i HolderGoneTargetLive w'
               else w' = w)"
proof -
  let ?c = "state_of i" and ?tp = "target_of i" and ?hp = "holder_of i" and ?h = "object_of i"
  let ?cs = "\<lparr>target = Some ?tp, holder = Some ?hp\<rparr>"
  from ph have cs: "heap_lookup (callback_states w) ?c = Some ?cs"
    and cnt: "count_list (deleted_states w) ?c = 0" by simp_all
  from ph obtain tper where tper: "heap_lookup (persistents w) ?tp = Some tper"
    "weak tper = Some (?c, WeakTargetCallback_fn)" by (auto dest: armedD)
  from ph obtain hper where hper: "heap_lookup (persistents w) ?hp = Some hper"
    "referent hper = Some ?h" "weak hper = Some (?c, WeakHolderCallback_fn)"
    by (auto dest: holder_registeredD)
  let ?w1 = "w\<lparr>persistents := heap_update ?hp (hper\<lparr>weak := None\<rparr>) (persistents w)\<rparr>"
  have hp1: "heap_lookup (persistents ?w1) ?hp = Some (hper\<lparr>weak := None\<rparr>)"
    using heap_lookup_SomeD[OF hper(1)] by (simp add: heap_lookup_update)
  have nf1: "faults ?w1 = []" and cs1: "heap_lookup (callback_states ?w1) ?c = Some ?cs"
    and r1: "referent (hper\<lparr>weak := None\<rparr>) = Some ?h"
    using nf cs hper(2) by simp_all
  have fire: "gc_fire ?hp w = Some (WeakHolderCallback ?c ?w1)"
    using gc_fire_armed[OF hper(1,3)] by simp
  show ?thesis
  proof (cases "slot ?h w = Some None")
    case True
    then have sl1: "slot ?h ?w1 = Some None" by (simp add: slot_Some_iff)
    let ?w' = "?w1\<lparr>global_handles := removeAll ?hp (global_handles ?w1),
                persistents := heap_free ?hp (persistents ?w1),
                  callback_states := heap_update ?c (?cs\<lparr>holder := None\<rparr>) (callback_states ?w1)\<rparr>"
    have "WeakHolderCallback ?c ?w1 = (Inr (), ?w')"
      using WeakHolderCallback_release[OF nf1 cs1 _ hp1 r1 sl1] by simp
    moreover have "in_phase i HolderGoneTargetLive ?w'"
      using cs cnt tper ne True heap_lookup_SomeD[OF cs]
      by (simp add: released_def armed_def slot_Some_iff heap_lookup_update heap_lookup_free)
    ultimately show ?thesis using fire nf True by (intro exI[of _ ?w']) simp
  next
    case False
    with ph have "slot ?h w = Some (Some ?tp)" by auto
    then have sl1: "slot ?h ?w1 = Some (Some ?tp)" by (simp add: slot_Some_iff)
    have "hper\<lparr>weak := Some (?c, WeakHolderCallback_fn)\<rparr> = hper"
      using hper(3) by (cases hper) simp
    then have "WeakHolderCallback ?c ?w1 = (Inr (), w)"
      using WeakHolderCallback_rearm[OF nf1 cs1 _ hp1 r1 sl1] hper(1)
      by (simp add: heap_update_update heap_update_same)
    then show ?thesis using fire nf False by (intro exI[of _ w]) simp
  qed
qed

lemma holder_fire_TargetGone:
  assumes ph: "in_phase i TargetGone w" and ne: "target_of i \<noteq> holder_of i" and nf: "faults w = []"
  shows "\<exists>w'. gc_fire (holder_of i) w = Some (Inr (), w') \<and> in_phase i BothGone w' \<and> faults w' = []"
proof -
  let ?c = "state_of i" and ?tp = "target_of i" and ?hp = "holder_of i" and ?h = "object_of i"
  let ?cs = "\<lparr>target = None, holder = Some ?hp\<rparr>"
  from ph have cs: "heap_lookup (callback_states w) ?c = Some ?cs"
    and cnt: "count_list (deleted_states w) ?c = 0"
    and rel: "released ?tp w" and sl: "slot ?h w = Some None" by simp_all
  from ph obtain hper where hper: "heap_lookup (persistents w) ?hp = Some hper"
    "referent hper = Some ?h" "weak hper = Some (?c, WeakHolderCallback_fn)"
    by (auto dest: holder_registeredD)
  let ?w1 = "w\<lparr>persistents := heap_update ?hp (hper\<lparr>weak := None\<rparr>) (persistents w)\<rparr>"
  have hp1: "heap_lookup (persistents ?w1) ?hp = Some (hper\<lparr>weak := None\<rparr>)"
    using heap_lookup_SomeD[OF hper(1)] by (simp add: heap_lookup_update)
  let ?w' = "?w1\<lparr>global_handles := removeAll ?hp (global_handles ?w1),
                persistents := heap_free ?hp (persistents ?w1),
                callback_states := heap_free ?c (callback_states ?w1),
                deleted_states := ?c # deleted_states ?w1\<rparr>"
  have nf1: "faults ?w1 = []" and cs1: "heap_lookup (callback_states ?w1) ?c = Some ?cs"
    and r1: "referent (hper\<lparr>weak := None\<rparr>) = Some ?h"
    and sl1: "slot ?h ?w1 = Some None"
    using nf cs hper(2) sl by (simp_all add: slot_Some_iff)
  have "WeakHolderCallback ?c ?w1 = (Inr (), ?w')"
    using WeakHolderCallback_release[OF nf1 cs1 _ hp1 r1 sl1] by simp
  then have fire: "gc_fire ?hp w = Some (Inr (), ?w')"
    using gc_fire_armed[OF hper(1,3)] by simp
  have "in_phase i BothGone ?w'"
    using cnt rel sl ne
    by (simp add: released_def slot_Some_iff heap_lookup_update heap_lookup_free)
  with fire nf show ?thesis by (intro exI[of _ ?w']) simp
qed

text \<open>\<open>clear()\<close> and \<open>get()\<close> on the holder keep the phase.\<close>

lemma clear_keeps_phase:
  assumes ph: "in_phase i ph w" and nf: "faults w = []"
  shows "\<exists>w'. ClearCallback (call_on (object_of i)) w = (Inr Undefined, w')
           \<and> in_phase i ph w' \<and> faults w' = []"
proof -
  let ?h = "object_of i"
  have h: "?h < length (objects w)" using ph by (cases ph) (auto dest: slot_SomeD)
  let ?w' = "w\<lparr>objects := (objects w)[?h := (objects w ! ?h)\<lparr>hidden := Some None\<rparr>]\<rparr>"
  have c: "ClearCallback (call_on ?h) w = (Inr Undefined, ?w')"
    using ClearCallback_writes[of w "call_on ?h"] nf h by (simp add: This_call_on)
  have "in_phase i ph ?w'"
    using ph h by (cases ph) (simp_all add: armed_def holder_registered_def released_def slot_Some_iff)
  with c nf show ?thesis by (intro exI[of _ ?w']) simp
qed

lemma get_keeps_world:
  assumes ph: "in_phase i ph w" and nf: "faults w = []"
  shows "\<exists>v. GettertCallback (call_on (object_of i)) w = (Inr v, w)"
proof (cases "slot (object_of i) w = Some None")
  case True
  then show ?thesis using GettertCallback_absent[OF nf, of "call_on (object_of i)"]
    by (simp add: This_call_on)
next
  case False
  with ph have A: "ph = Active" and sl: "slot (object_of i) w = Some (Some (target_of i))"
    by (cases ph; auto)+
  with ph obtain tper where "heap_lookup (persistents w) (target_of i) = Some tper"
    by (auto dest: armedD)
  then show ?thesis
    using GettertCallback_resolves[OF nf, of "call_on (object_of i)" "target_of i" tper] sl
    by (simp add: This_call_on)
qed

text \<open>Every event of the instance keeps it in one of the four phases and ends normally.\<close>

lemma instance_step:
  assumes ph: "in_phase i ph w" and ne: "target_of i \<noteq> holder_of i" and nf: "faults w = []"
    and ev: "e \<in> instance_events i" and st: "step e w = Some (r, w')"
  shows "r = Inr () \<and> (\<exists>ph'. in_phase i ph' w') \<and> faults w' = []"
proof -
  have fired: "r = Inr () \<and> (\<exists>ph'. in_phase i ph' w') \<and> faults w' = []"
    if "\<exists>w1. gc_fire p w = Some (Inr (), w1) \<and> in_phase i ph1 w1 \<and> faults w1 = []"
      and "e = Collect p" for p ph1
  proof -
    from that(1) obtain w1 where 1: "gc_fire p w = Some (Inr (), w1)" "in_phase i ph1 w1"
      "faults w1 = []" by blast
    from st that(2) 1(1) have "r = Inr ()" "w' = w1" by simp_all
    with 1(2,3) show ?thesis by blast
  qed
  consider (T) "e = Collect (target_of i)" | (H) "e = Collect (holder_of i)"
    | (C) "e = CallClear (object_of i)" | (G) "e = CallGet (object_of i)"
    using ev by (auto simp: instance_events_def)
  then show ?thesis
  proof cases
    case T
    show ?thesis
    proof (cases ph)
      case Active
      with ph have "in_phase i Active w" by simp
      from fired[OF target_fire_Active[OF this ne nf] T] show ?thesis .
    next
      case HolderGoneTargetLive
      with ph have "in_phase i HolderGoneTargetLive w" by simp
      from fired[OF target_fire_HolderGone[OF this ne nf] T] show ?thesis .
    next
      case TargetGone
      with ph have "released (target_of i) w" by simp
      then show ?thesis using st T by (simp add: gc_fire_released)
    next
      case BothGone
      with ph have "released (target_of i) w" by simp
      then show ?thesis using st T by (simp add: gc_fire_released)
    qed
  next
    case H
    show ?thesis
    proof (cases ph)
      case Active
      with ph have A: "in_phase i Active w" by simp
      from holder_fire_Active[OF A ne nf] obtain w1 where
        w1: "gc_fire (holder_of i) w = Some (Inr (), w1)" "faults w1 = []"
          "if slot (object_of i) w = Some None then in_phase i HolderGoneTargetLive w1 else w1 = w"
        by blast
      have "\<exists>ph1. in_phase i ph1 w1"
      proof (cases "slot (object_of i) w = Some None")
        case True
        with w1(3) have "in_phase i HolderGoneTargetLive w1" by simp
        then show ?thesis ..
      next
        case False
        with w1(3) A have "in_phase i Active w1" by simp
        then show ?thesis ..
      qed
      then obtain ph1 where "in_phase i ph1 w1" ..
      with w1(1,2) have "\<exists>w1. gc_fire (holder_of i) w = Some (Inr (), w1) \<and> in_phase i ph1 w1
          \<and> faults w1 = []" by blast
      from fired[OF this H] show ?thesis .
    next
      case TargetGone
      with ph have "in_phase i TargetGone w" by simp
      from fired[OF holder_fire_TargetGone[OF this ne nf] H] show ?thesis .
    next
      case HolderGoneTargetLive
      with ph have "released (holder_of i) w" by simp
      then show ?thesis using st H by (simp add: gc_fire_released)
    next
      case BothGone
      with ph have "released (holder_of i) w" by simp
      then show ?thesis using st H by (simp add: gc_fire_released)
    qed
  next
    case C
    from clear_keeps_phase[OF ph nf] obtain w1 where
      1: "ClearCallback (call_on (object_of i)) w = (Inr Undefined, w1)" "in_phase i ph w1"
        "faults w1 = []" by blast
    from st C 1(1) have "r = Inr ()" "w' = w1" by (simp_all add: forget_def)
    with 1(2,3) show ?thesis by blast
  next
    case G
    from get_keeps_world[OF ph nf] obtain v where
      1: "GettertCallback (call_on (object_of i)) w = (Inr v, w)" by blast
    from st G 1 have "r = Inr ()" "w' = w" by (simp_all add: forget_def)
    with ph nf show ?thesis by blast
  qed
qed

lemma instance_run:
  assumes ne: "target_of i \<noteq> holder_of i"
  shows "in_phase i ph w \<Longrightarrow> faults w = [] \<Longrightarrow> set evs \<subseteq> instance_events i \<Longrightarrow>
         run evs w = Some r \<Longrightarrow> \<exists>w' ph'. r = Inr w' \<and> in_phase i ph' w' \<and> faults w' = []"
proof (induction evs arbitrary: w ph)
  case Nil
  then show ?case by auto
next
  case (Cons e es)
  from Cons.prems(4) obtain r1 w1 where st: "step e w = Some (r1, w1)"
    by (auto split: option.splits)
  have e: "e \<in> instance_events i" using Cons.prems(3) by simp
  from instance_step[OF Cons.prems(1) ne Cons.prems(2) e st]
  obtain ph1 where 1: "r1 = Inr ()" "in_phase i ph1 w1" "faults w1 = []" by blast
  then have "run es w1 = Some r" using Cons.prems(4) st by simp
  from Cons.IH[OF 1(2,3) _ this] Cons.prems(3) show ?case by simp
qed

text \<open>From every phase the collector can complete the teardown.\<close>

lemma teardown_completes:
  assumes ph: "in_phase i ph w" and ne: "target_of i \<noteq> holder_of i" and nf: "faults w = []"
  shows "\<exists>evs w'. set evs \<subseteq> instance_events i \<and> run evs w = Some (Inr w') \<and> in_phase i BothGone w'"
proof (cases ph)
  case BothGone
  then show ?thesis using ph by (intro exI[of _ "[]"] exI[of _ w]) simp
next
  case TargetGone
  with ph holder_fire_TargetGone[OF _ ne nf] obtain w' where
    "gc_fire (holder_of i) w = Some (Inr (), w')" "in_phase i BothGone w'" by auto
  then show ?thesis
    by (intro exI[of _ "[Collect (holder_of i)]"] exI[of _ w']) (simp add: instance_events_def)
next
  case HolderGoneTargetLive
  with ph target_fire_HolderGone[OF _ ne nf] obtain w' where
    "gc_fire (target_of i) w = Some (Inr (), w')" "in_phase i BothGone w'" by auto
  then show ?thesis
    by (intro exI[of _ "[Collect (target_of i)]"] exI[of _ w']) (simp add: instance_events_def)
next
  case Active
  with ph target_fire_Active[OF _ ne nf] obtain w1 where
    1: "gc_fire (target_of i) w = Some (Inr (), w1)" "in_phase i TargetGone w1" "faults w1 = []"
    by auto
  from holder_fire_TargetGone[OF 1(2) ne 1(3)] obtain w' where
    "gc_fire (holder_of i) w1 = Some (Inr (), w')" "in_phase i BothGone w'" by auto
  with 1 show ?thesis
    by (intro exI[of _ "[Collect (target_of i), Collect (holder_of i)]"] exI[of _ w'])
       (simp add: instance_events_def)
qed

lemma run_append:
  "run xs w = Some (Inr w1) \<Longrightarrow> run (xs @ ys) w = run ys w1"
  by (induction xs arbitrary: w) (auto split: option.splits prod.splits sum.splits)

lemma phase_facts:
  assumes "in_phase i ph w" and "target_of i \<noteq> holder_of i"
  shows "count_list (deleted_states w) (state_of i)
           = (if released (target_of i) w \<and> released (holder_of i) w then 1 else 0)"
    and "heap_lookup (callback_states w) (state_of i) = None
           \<longleftrightarrow> released (target_of i) w \<and> released (holder_of i) w"
    and "heap_lookup (callback_states w) (state_of i) = Some cs \<Longrightarrow>
           (target cs = None \<longleftrightarrow> released (target_of i) w)
           \<and> (holder cs = None \<longleftrightarrow> released (holder_of i) w)"
  using assms
  by (cases ph; auto simp: released_def armed_def holder_registered_def split: option.splits)+

text \<open>A successful construction leaves the new instance in phase Active.\<close>

lemma construction_is_Active:
  assumes "faults w = []" "m_objectManager (thiz w) \<noteq> None"
    "cached_ok (m_poGetterFunc (thiz w)) w" "cached_ok (m_poClearFunc (thiz w)) w"
    "IsConstructCall a" "argv a = [Object x]"
    and log: "\<forall>c \<in> set (deleted_states w). c < length (callback_states w)"
  shows "\<exists>w'. ConstructorCallback a w = (Inr (Object (length (objects w))), w')
           \<and> faults w' = []
           \<and> in_phase \<lparr>state_of = length (callback_states w), target_of = length (persistents w),
                        holder_of = Suc (length (persistents w)), object_of = length (objects w)\<rparr>
                Active w'"
proof -
  from ConstructorCallbackImpl_success[OF assms(1-6)] obtain w' where
    w': "ConstructorCallbackImpl a w = (Inr (Object (length (objects w))), w')"
      "length (objects w) < length (objects w')"
      "hidden (objects w' ! length (objects w)) = Some (Some (length (persistents w)))"
      "heap_lookup (persistents w') (length (persistents w)) =
        Some \<lparr>referent = Some x, weak = Some (length (callback_states w), WeakTargetCallback_fn)\<rparr>"
      "heap_lookup (persistents w') (Suc (length (persistents w))) =
        Some \<lparr>referent = Some (length (objects w)),
              weak = Some (length (callback_states w), WeakHolderCallback_fn)\<rparr>"
      "heap_lookup (callback_states w') (length (callback_states w)) =
        Some \<lparr>target = Some (length (persistents w)), holder = Some (Suc (length (persistents w)))\<rparr>"
      "deleted_states w' = deleted_states w" "faults w' = []"
    by (elim exE conjE)
  have "length (callback_states w) \<notin> set (deleted_states w)" using log by auto
  then have "count_list (deleted_states w') (length (callback_states w)) = 0"
    using w'(7) by (simp add: count_list_0_iff)
  then show ?thesis using w'
    by (intro exI[of _ w'])
       (simp add: ConstructorCallback_def try_catch_normal armed_def holder_registered_def
          slot_Some_iff)
qed

text \<open>
  Claim C1. Take the CallbackState of one weak reference right after its construction
  (phase Active) and any interleaving of its events: the target callback, the holder
  callback, fired by the collector whenever the handle is registered and so any number of
  times while the holder callback re-arms, and \<open>clear()\<close> and \<open>get()\<close> on the holder. No callback
  aborts, and after the interleaving the record has been freed once if both handles are
  released and never otherwise; it is still allocated exactly while a handle is registered,
  and then its null fields are exactly the released handles. So the free happens in the step
  that releases the second handle. Every interleaving can be continued by collector
  callbacks to the point where both handles are released and the record has been freed
  exactly once. The free happens only in the two weak callbacks: \<open>clear()\<close>, \<open>get()\<close> and the
  constructor never change the log of frees, in any world.
\<close>

theorem CallbackState_freed_exactly_once:
  assumes "in_phase i Active w" and "target_of i \<noteq> holder_of i" and "faults w = []"
    and "set evs \<subseteq> instance_events i" and "run evs w = Some r"
  shows "(\<exists>w'. r = Inr w'
            \<and> count_list (deleted_states w') (state_of i)
                = (if released (target_of i) w' \<and> released (holder_of i) w' then 1 else 0)
            \<and> (heap_lookup (callback_states w') (state_of i) = None
                 \<longleftrightarrow> released (target_of i) w' \<and> released (holder_of i) w')
            \<and> (\<forall>cs. heap_lookup (callback_states w') (state_of i) = Some cs \<longrightarrow>
                  (target cs = None \<longleftrightarrow> released (target_of i) w')
                  \<and> (holder cs = None \<longleftrightarrow> released (holder_of i) w'))
            \<and> (\<exists>more w''. set more \<subseteq> instance_events i
                  \<and> run (evs @ more) w = Some (Inr w'')
                  \<and> released (target_of i) w'' \<and> released (holder_of i) w''
                  \<and> count_list (deleted_states w'') (state_of i) = 1))
         \<and> (\<forall>a v. deleted_states (snd (ClearCallback a v)) = deleted_states v
                  \<and> deleted_states (snd (GettertCallback a v)) = deleted_states v
                  \<and> deleted_states (snd (ConstructorCallback a v)) = deleted_states v)"
proof (intro conjI allI)
  from instance_run[OF assms(2) assms(1,3,4,5)] obtain w' ph' where
    1: "r = Inr w'" "in_phase i ph' w'" "faults w' = []" by blast
  from teardown_completes[OF 1(2) assms(2) 1(3)] obtain more w'' where
    2: "set more \<subseteq> instance_events i" "run more w' = Some (Inr w'')" "in_phase i BothGone w''"
    by blast
  have 3: "run (evs @ more) w = Some (Inr w'')"
    using run_append[of evs w w' more] assms(5) 1(1) 2(2) by simp
  have 4: "released (target_of i) w'' \<and> released (holder_of i) w''
      \<and> count_list (deleted_states w'') (state_of i) = 1"
    using 2(3) by simp
  show "\<exists>w'. r = Inr w'
            \<and> count_list (deleted_states w') (state_of i)
                = (if released (target_of i) w' \<and> released (holder_of i) w' then 1 else 0)
            \<and> (heap_lookup (callback_states w') (state_of i) = None
                 \<longleftrightarrow> released (target_of i) w' \<and> released (holder_of i) w')
            \<and> (\<forall>cs. heap_lookup (callback_states w') (state_of i) = Some cs \<longrightarrow>
                  (target cs = None \<longleftrightarrow> released (target_of i) w')
                  \<and> (holder cs = None \<longleftrightarrow> released (holder_of i) w'))
            \<and> (\<exists>more w''. set more \<subseteq> instance_events i
                  \<and> run (evs @ more) w = Some (Inr w'')
                  \<and> released (target_of i) w'' \<and> released (holder_of i) w''
                  \<and> count_list (deleted_states w'') (state_of i) = 1)"
    using 1(1) phase_facts[OF 1(2) assms(2)] 2(1) 3 4
    by (intro exI[of _ w']) blast
next
  fix a v
  show "deleted_states (snd (ClearCallback a v)) = deleted_states v"
    using keeps_log(3)[of "deleted_states v" a] by (simp add: preserves_def)
  show "deleted_states (snd (GettertCallback a v)) = deleted_states v"
    using keeps_log(2)[of "deleted_states v" a] by (simp add: preserves_def)
  show "deleted_states (snd (ConstructorCallback a v)) = deleted_states v"
    using keeps_log(1)[of "deleted_states v" a] by (simp add: preserves_def)
qed

lemma run_world1:
  "run [Collect 1, CallClear 1, CallGet 1, Collect 1, Collect 0] world1 = Some (Inr world5)"
  by (simp add: world1_def world5_def gc_fire_def WeakTargetCallback_def WeakHolderCallback_def
      GettertCallback_def ClearCallback_def call_on_def forget_def monad_defs prim_defs
      heap_lookup_def heap_update_def heap_free_def Let_def)

theorem CallbackState_freed_exactly_once_witness:
  "run [Collect 1, CallClear 1, CallGet 1, Collect 1, Collect 0] world1 = Some (Inr world5)
   \<and> count_list (deleted_states world5) 0 = 1
   \<and> released 0 world5 \<and> released 1 world5
   \<and> heap_lookup (callback_states world5) 0 = None
   \<and> run [Collect 1, CallClear 1] world1 = Some (Inr world3)
   \<and> count_list (deleted_states world3) 0 = 0"
proof -
  have A: "in_phase inst1 Active world1"
    by (simp add: inst1_def world1_def armed_def holder_registered_def slot_def heap_lookup_def)
  have ne: "target_of inst1 \<noteq> holder_of inst1" by (simp add: inst1_def)
  have nf: "faults world1 = []" by (simp add: world1_def)
  have ev: "set [Collect 1, CallClear 1, CallGet 1, Collect 1, Collect 0] \<subseteq> instance_events inst1"
    "set [Collect 1, CallClear 1] \<subseteq> instance_events inst1"
    by (simp_all add: instance_events_def inst1_def)
  have r3: "run [Collect 1, CallClear 1] world1 = Some (Inr world3)"
    by (simp add: world1_def world3_def gc_fire_def WeakHolderCallback_def
      ClearCallback_def call_on_def forget_def monad_defs prim_defs
      heap_lookup_def heap_update_def heap_free_def Let_def)
  from CallbackState_freed_exactly_once[OF A ne nf ev(1) run_world1]
  have 5: "count_list (deleted_states world5) (state_of inst1)
        = (if released (target_of inst1) world5 \<and> released (holder_of inst1) world5 then 1 else 0)"
    "heap_lookup (callback_states world5) (state_of inst1) = None
        \<longleftrightarrow> released (target_of inst1) world5 \<and> released (holder_of inst1) world5"
    by auto
  from CallbackState_freed_exactly_once[OF A ne nf ev(2) r3]
  have 3: "count_list (deleted_states world3) (state_of inst1)
        = (if released (target_of inst1) world3 \<and> released (holder_of inst1) world3 then 1 else 0)"
    by auto
  have rel5: "released 0 world5" "released 1 world5"
    by (simp_all add: released_def world5_def heap_lookup_def)
  have rel3: "\<not> released 0 world3"
    by (simp add: released_def world3_def heap_lookup_def)
  show ?thesis using run_world1 r3 5 3 rel5 rel3 by (simp add: inst1_def)
qed

section \<open>The accessor cache over time\<close>

lemma stays_prims:
  "preserves (stays p f) (call_ext opn)"
  "preserves (stays p f) GetEmptyObject"
  "preserves (stays p f) (GetFunction fn)"
  "preserves (stays p f) (Local_New po)"
  "preserves (stays p f) (read_state c)"
  "preserves (stays p f) (SetHiddenValue obj v)"
  "preserves (stays p f) (GetHiddenValue obj)"
  "preserves (stays p f) (ObjectSet ob name fo)"
  by (auto simp: preserves_def prim_defs monad_defs stays_def unaliased_def cached_fn_def
      split: option.splits sum.splits prod.splits if_splits)

lemma stays_new_Persistent: "preserves (stays p f) (new_Persistent ob)"
  by (auto simp: preserves_def prim_defs monad_defs stays_def unaliased_def cached_fn_def
      heap_lookup_append split: option.splits dest: heap_lookup_SomeD)

lemma stays_SetWeak: "preserves (stays p f) (SetWeak po c cb)"
  by (auto simp: preserves_def prim_defs monad_defs stays_def unaliased_def cached_fn_def
      heap_lookup_update split: option.splits if_splits)

lemma stays_Reset: "po \<noteq> Some p \<Longrightarrow> preserves (stays p f) (Reset po)"
  by (auto simp: preserves_def prim_defs monad_defs stays_def unaliased_def cached_fn_def
      heap_lookup_update split: option.splits if_splits)

lemma stays_delete_Persistent: "po \<noteq> Some p \<Longrightarrow> preserves (stays p f) (delete_Persistent po)"
  by (auto simp: preserves_def prim_defs monad_defs stays_def unaliased_def cached_fn_def
      heap_lookup_free split: option.splits if_splits)

lemma stays_set_field:
  "preserves (stays p f) (set_target c None)"
  "preserves (stays p f) (set_holder c None)"
  by (auto simp: preserves_def prim_defs monad_defs stays_def unaliased_def cached_fn_def
      heap_lookup_update split: option.splits if_splits)

lemma stays_delete_CallbackState: "preserves (stays p f) (delete_CallbackState c)"
  by (auto simp: preserves_def prim_defs monad_defs stays_def unaliased_def cached_fn_def
      heap_lookup_free split: option.splits if_splits)

lemma stays_new_CallbackState:
  "a \<noteq> p \<Longrightarrow> b \<noteq> p \<Longrightarrow> preserves (stays p f) (new_CallbackState a b)"
  by (auto simp: preserves_def prim_defs monad_defs stays_def unaliased_def cached_fn_def
      heap_lookup_append heap_lookup_Cons heap_lookup_Nil split: option.splits if_splits nat.splits)

lemma stays_read_yields:
  "yields (stays p f) (read_state c) (\<lambda>cs. target cs \<noteq> Some p \<and> holder cs \<noteq> Some p)"
  by (auto simp: yields_def prim_defs stays_def unaliased_def split: option.splits)

lemma stays_new_yields: "yields (stays p f) (new_Persistent ob) (\<lambda>x. x \<noteq> p)"
  by (auto simp: yields_def prim_defs monad_defs stays_def cached_fn_def
      split: option.splits dest: heap_lookup_SomeD)


lemma stays_frame [simp]:
  "stays p f (w\<lparr>thiz := t\<rparr>) = stays p f w"
  "stays p f (w\<lparr>pending_exception := e\<rparr>) = stays p f w"
  by (simp_all add: stays_def unaliased_def cached_fn_def)

lemma stays_accessors:
  "preserves (stays p f) GetGetterFunction"
  "preserves (stays p f) GetClearFunction"
  by (intro preserves_GetGetterFunction preserves_GetClearFunction stays_prims
      stays_new_Persistent; simp)+

lemma stays_ConstructorCallback: "preserves (stays p f) (ConstructorCallback a)"
proof -
  have "preserves (stays p f) (ConstructorCallbackImpl a)"
  proof (cases "IsConstructCall a \<and> length (argv a) = 1")
    case False
    then show ?thesis by (auto simp: ConstructorCallbackImpl_def preserves_throwM)
  next
    case True
    show ?thesis
    proof (cases "argv a ! 0")
      case (Object targetObj)
      show ?thesis
        unfolding ConstructorCallbackImpl_def using True Object
        apply simp
        apply (rule preserves_bindM[OF stays_prims(2)])
        apply (rule preserves_bindM_yields[OF stays_new_Persistent stays_new_yields])
        apply (rule preserves_bindM_yields[OF stays_new_Persistent stays_new_yields])
        apply (intro preserves_intros stays_prims stays_SetWeak stays_accessors
            stays_new_CallbackState)
         apply assumption+
        done
    qed (use True in \<open>simp_all add: ConstructorCallbackImpl_def preserves_throwM\<close>)
  qed
  then show ?thesis by (rule preserves_ConstructorCallback) simp
qed

lemma stays_WeakTargetCallback: "preserves (stays p f) (WeakTargetCallback c)"
  unfolding WeakTargetCallback_def Let_def
  apply (rule preserves_bindM_yields[OF stays_prims(5) stays_read_yields])
  apply (intro preserves_intros stays_prims stays_Reset stays_delete_Persistent stays_set_field
      stays_delete_CallbackState)
   apply simp_all
  done

lemma stays_WeakHolderCallback: "preserves (stays p f) (WeakHolderCallback c)"
  unfolding WeakHolderCallback_def Let_def
  apply (rule preserves_try_catch)
    apply (rule preserves_bindM_yields[OF stays_prims(5) stays_read_yields])
    apply (intro preserves_intros stays_prims stays_Reset stays_delete_Persistent stays_set_field
      stays_delete_CallbackState stays_SetWeak)
     apply simp_all
  apply (rule preserves_returnM)
  done

lemma stays_accessor_calls:
  "preserves (stays p f) (GettertCallback a)"
  "preserves (stays p f) (ClearCallback a)"
  by (intro preserves_GettertCallback preserves_ClearCallback stays_prims; simp)+


lemma keeps_accessor_pointers:
  "preserves (\<lambda>w. m_poGetterFunc (thiz w) = Some pg \<and> m_poClearFunc (thiz w) = Some pc)
     (ConstructorCallback a)"
  "preserves (\<lambda>w. m_poGetterFunc (thiz w) = Some pg \<and> m_poClearFunc (thiz w) = Some pc)
     (GettertCallback a)"
  "preserves (\<lambda>w. m_poGetterFunc (thiz w) = Some pg \<and> m_poClearFunc (thiz w) = Some pc)
     (ClearCallback a)"
  "preserves (\<lambda>w. m_poGetterFunc (thiz w) = Some pg \<and> m_poClearFunc (thiz w) = Some pc)
     (WeakTargetCallback c)"
  "preserves (\<lambda>w. m_poGetterFunc (thiz w) = Some pg \<and> m_poClearFunc (thiz w) = Some pc)
     (WeakHolderCallback c)"
proof -
  let ?P = "\<lambda>w. m_poGetterFunc (thiz w) = Some pg \<and> m_poClearFunc (thiz w) = Some pc"
  have prims:
    "\<And>opn. preserves ?P (call_ext opn)" "preserves ?P GetEmptyObject"
    "\<And>ob. preserves ?P (new_Persistent ob)" "\<And>p q. preserves ?P (new_CallbackState p q)"
    "\<And>po c cb. preserves ?P (SetWeak po c cb)" "\<And>po. preserves ?P (Reset po)"
    "\<And>po. preserves ?P (delete_Persistent po)" "\<And>po. preserves ?P (Local_New po)"
    "\<And>c. preserves ?P (read_state c)" "\<And>c v. preserves ?P (set_target c v)"
    "\<And>c v. preserves ?P (set_holder c v)" "\<And>c. preserves ?P (delete_CallbackState c)"
    "\<And>obj v. preserves ?P (SetHiddenValue obj v)" "\<And>obj. preserves ?P (GetHiddenValue obj)"
    "\<And>ob name fo. preserves ?P (ObjectSet ob name fo)"
    by (auto simp: preserves_def prim_defs monad_defs
        split: option.splits sum.splits prod.splits if_splits)
  have acc: "preserves ?P GetGetterFunction" "preserves ?P GetClearFunction"
    by (auto simp: preserves_def GetGetterFunction_def GetClearFunction_def prim_defs monad_defs
        split: option.splits sum.splits prod.splits abort.splits)
  show "preserves ?P (ConstructorCallback a)"
    by (intro preserves_ConstructorCallback preserves_ConstructorCallbackImpl[where Q = "\<lambda>_. True"]
        prims acc yields_True; simp)
  show "preserves ?P (GettertCallback a)"
    by (intro preserves_GettertCallback prims; simp)
  show "preserves ?P (ClearCallback a)"
    by (intro preserves_ClearCallback prims; simp)
  show "preserves ?P (WeakTargetCallback c)"
    by (intro preserves_WeakTargetCallback prims)
  show "preserves ?P (WeakHolderCallback c)"
    by (intro preserves_WeakHolderCallback prims; simp)
qed

lemma run_stays: "stays p f w \<Longrightarrow> run evs w = Some (Inr w') \<Longrightarrow> stays p f w'"
proof (rule run_preserves[where P = "stays p f"])
  fix v q per
  assume "stays p f v" and "heap_lookup (persistents v) q = Some per"
  then show "stays p f (v\<lparr>persistents := heap_update q (per\<lparr>weak := None\<rparr>) (persistents v)\<rparr>)"
    by (auto simp: stays_def unaliased_def cached_fn_def heap_lookup_update split: option.splits)
qed (simp_all add: stays_ConstructorCallback stays_accessor_calls stays_WeakTargetCallback
      stays_WeakHolderCallback)

lemma run_keeps_accessor_pointers:
  "m_poGetterFunc (thiz w) = Some pg \<and> m_poClearFunc (thiz w) = Some pc \<Longrightarrow>
   run evs w = Some (Inr w') \<Longrightarrow>
   m_poGetterFunc (thiz w') = Some pg \<and> m_poClearFunc (thiz w') = Some pc"
  by (rule run_preserves[where
        P = "\<lambda>w. m_poGetterFunc (thiz w) = Some pg \<and> m_poClearFunc (thiz w) = Some pc"];
      (rule keeps_accessor_pointers | simp))

text \<open>
  Claim C9. The accessor functions are built lazily and cached on the controller. While the
  controller has no cached getter, \<open>GetGetterFunction\<close> builds a new function object for
  \<open>GettertCallback\<close>, stores a handle to it, and a second request returns the same function
  and changes nothing; likewise \<open>GetClearFunction\<close> with \<open>ClearCallback\<close>. Whenever a cached
  handle resolves to a function, the request returns that function and leaves the world
  unchanged. Two weak references constructed one after the other through the same controller
  are distinct holders whose \<open>get\<close> and \<open>clear\<close> properties are the same two function objects.
  And once both cached handles are live and no CallbackState points to them, they stay so
  after every run of events of the system, so every later request returns the same two
  functions.
\<close>

theorem accessors_cached:
  "(faults w = [] \<and> m_poGetterFunc (thiz w) = None \<longrightarrow>
      (\<exists>w1. GetGetterFunction w = (Inr (Some (length (objects w))), w1)
         \<and> callee (objects w1 ! length (objects w)) = Some GettertCallback_fn
         \<and> cached_fn (m_poGetterFunc (thiz w1)) w1 = Some (length (objects w))
         \<and> GetGetterFunction w1 = (Inr (Some (length (objects w))), w1))) \<and>
   (faults w = [] \<and> m_poClearFunc (thiz w) = None \<longrightarrow>
      (\<exists>w1. GetClearFunction w = (Inr (Some (length (objects w))), w1)
         \<and> callee (objects w1 ! length (objects w)) = Some ClearCallback_fn
         \<and> cached_fn (m_poClearFunc (thiz w1)) w1 = Some (length (objects w))
         \<and> GetClearFunction w1 = (Inr (Some (length (objects w))), w1))) \<and>
   (cached_fn (m_poGetterFunc (thiz w)) w = Some f \<longrightarrow> GetGetterFunction w = (Inr (Some f), w)) \<and>
   (cached_fn (m_poClearFunc (thiz w)) w = Some f \<longrightarrow> GetClearFunction w = (Inr (Some f), w)) \<and>
   (faults w = [] \<and> m_objectManager (thiz w) \<noteq> None
      \<and> cached_ok (m_poGetterFunc (thiz w)) w \<and> cached_ok (m_poClearFunc (thiz w)) w
      \<and> IsConstructCall a \<and> argv a = [Object x] \<and> IsConstructCall b \<and> argv b = [Object y] \<longrightarrow>
      (\<exists>h1 w1 h2 w2 fg fc.
          ConstructorCallback a w = (Inr (Object h1), w1)
        \<and> ConstructorCallback b w1 = (Inr (Object h2), w2)
        \<and> h1 \<noteq> h2
        \<and> props (objects w2 ! h1) = [(''get'', Object fg), (''clear'', Object fc)]
        \<and> props (objects w2 ! h2) = [(''get'', Object fg), (''clear'', Object fc)])) \<and>
   (cache_live pg pc gf cf w \<and> run evs w = Some (Inr w') \<longrightarrow>
      cache_live pg pc gf cf w'
      \<and> GetGetterFunction w' = (Inr (Some gf), w')
      \<and> GetClearFunction w' = (Inr (Some cf), w'))"
proof (intro conjI impI)
  assume a: "faults w = [] \<and> m_poGetterFunc (thiz w) = None"
  let ?w1 = "w\<lparr>objects := objects w @ [\<lparr>props = [], hidden = None, callee = Some GettertCallback_fn\<rparr>],
              global_handles := length (persistents w) # global_handles w,
              persistents := persistents w @ [Some \<lparr>referent = Some (length (objects w)), weak = None\<rparr>],
              thiz := (thiz w)\<lparr>m_poGetterFunc := Some (length (persistents w))\<rparr>\<rparr>"
  have 1: "GetGetterFunction w = (Inr (Some (length (objects w))), ?w1)"
    using a by (simp add: GetGetterFunction_first)
  have 2: "GetGetterFunction ?w1 = (Inr (Some (length (objects w))), ?w1)"
    using GetGetterFunction_cached[of ?w1 "length (persistents w)"
        "\<lparr>referent = Some (length (objects w)), weak = None\<rparr>"]
    by (simp add: heap_lookup_append heap_lookup_Cons)
  show "\<exists>w1. GetGetterFunction w = (Inr (Some (length (objects w))), w1)
         \<and> callee (objects w1 ! length (objects w)) = Some GettertCallback_fn
         \<and> cached_fn (m_poGetterFunc (thiz w1)) w1 = Some (length (objects w))
         \<and> GetGetterFunction w1 = (Inr (Some (length (objects w))), w1)"
    using 1 2 by (intro exI[of _ ?w1]) (simp add: cached_fn_def heap_lookup_append heap_lookup_Cons)
next
  assume a: "faults w = [] \<and> m_poClearFunc (thiz w) = None"
  let ?w1 = "w\<lparr>objects := objects w @ [\<lparr>props = [], hidden = None, callee = Some ClearCallback_fn\<rparr>],
              global_handles := length (persistents w) # global_handles w,
              persistents := persistents w @ [Some \<lparr>referent = Some (length (objects w)), weak = None\<rparr>],
              thiz := (thiz w)\<lparr>m_poClearFunc := Some (length (persistents w))\<rparr>\<rparr>"
  have 1: "GetClearFunction w = (Inr (Some (length (objects w))), ?w1)"
    using a by (simp add: GetClearFunction_first)
  have 2: "GetClearFunction ?w1 = (Inr (Some (length (objects w))), ?w1)"
    using GetClearFunction_cached[of ?w1 "length (persistents w)"
        "\<lparr>referent = Some (length (objects w)), weak = None\<rparr>"]
    by (simp add: heap_lookup_append heap_lookup_Cons)
  show "\<exists>w1. GetClearFunction w = (Inr (Some (length (objects w))), w1)
         \<and> callee (objects w1 ! length (objects w)) = Some ClearCallback_fn
         \<and> cached_fn (m_poClearFunc (thiz w1)) w1 = Some (length (objects w))
         \<and> GetClearFunction w1 = (Inr (Some (length (objects w))), w1)"
    using 1 2 by (intro exI[of _ ?w1]) (simp add: cached_fn_def heap_lookup_append heap_lookup_Cons)
next
  assume "cached_fn (m_poGetterFunc (thiz w)) w = Some f"
  then show "GetGetterFunction w = (Inr (Some f), w)"
    by (auto dest!: cached_fn_SomeD simp: GetGetterFunction_cached)
next
  assume "cached_fn (m_poClearFunc (thiz w)) w = Some f"
  then show "GetClearFunction w = (Inr (Some f), w)"
    by (auto dest!: cached_fn_SomeD simp: GetClearFunction_cached)
next
  assume pre: "faults w = [] \<and> m_objectManager (thiz w) \<noteq> None
      \<and> cached_ok (m_poGetterFunc (thiz w)) w \<and> cached_ok (m_poClearFunc (thiz w)) w
      \<and> IsConstructCall a \<and> argv a = [Object x] \<and> IsConstructCall b \<and> argv b = [Object y]"
  let ?h1 = "length (objects w)"
  from pre obtain w1 fg fc where w1:
    "ConstructorCallbackImpl a w = (Inr (Object ?h1), w1)"
    "?h1 < length (objects w1)"
    "props (objects w1 ! ?h1) = [(''get'', Object fg), (''clear'', Object fc)]"
    "cached_fn (m_poGetterFunc (thiz w1)) w1 = Some fg"
    "cached_fn (m_poClearFunc (thiz w1)) w1 = Some fc"
    "m_objectManager (thiz w1) = m_objectManager (thiz w)" "faults w1 = []"
    using ConstructorCallbackImpl_success[of w a x] by blast
  let ?h2 = "length (objects w1)"
  have om1: "m_objectManager (thiz w1) \<noteq> None" using w1(6) pre by simp
  have b: "IsConstructCall b" "argv b = [Object y]" using pre by simp_all
  from ConstructorCallbackImpl_success[OF w1(7) om1 cached_fn_ok[OF w1(4)] cached_fn_ok[OF w1(5)] b]
  obtain w2 fg' fc' where w2': "ConstructorCallbackImpl b w1 = (Inr (Object ?h2), w2)"
    "take ?h2 (objects w2) = objects w1"
    "props (objects w2 ! ?h2) = [(''get'', Object fg'), (''clear'', Object fc')]"
    "\<forall>f. cached_fn (m_poGetterFunc (thiz w1)) w1 = Some f \<longrightarrow> fg' = f"
    "\<forall>f. cached_fn (m_poClearFunc (thiz w1)) w1 = Some f \<longrightarrow> fc' = f"
    by (elim exE conjE)
  have "fg' = fg" "fc' = fc" using w2'(4,5) w1(4,5) by simp_all
  with w2' have w2: "ConstructorCallbackImpl b w1 = (Inr (Object ?h2), w2)"
    "take ?h2 (objects w2) = objects w1"
    "props (objects w2 ! ?h2) = [(''get'', Object fg), (''clear'', Object fc)]"
    by simp_all
  have "objects w2 ! ?h1 = objects w1 ! ?h1"
    using w1(2) w2(2) by (metis nth_take)
  then have "props (objects w2 ! ?h1) = [(''get'', Object fg), (''clear'', Object fc)]"
    using w1(3) by simp
  then show "\<exists>h1 w1 h2 w2 fg fc.
          ConstructorCallback a w = (Inr (Object h1), w1)
        \<and> ConstructorCallback b w1 = (Inr (Object h2), w2)
        \<and> h1 \<noteq> h2
        \<and> props (objects w2 ! h1) = [(''get'', Object fg), (''clear'', Object fc)]
        \<and> props (objects w2 ! h2) = [(''get'', Object fg), (''clear'', Object fc)]"
    using w1(1,2) w2(1,3)
    by (intro exI[of _ ?h1] exI[of _ w1] exI[of _ ?h2] exI[of _ w2] exI[of _ fg] exI[of _ fc])
       (simp add: ConstructorCallback_def try_catch_normal)
next
  assume live: "cache_live pg pc gf cf w \<and> run evs w = Some (Inr w')"
  then have r: "run evs w = Some (Inr w')" by simp
  have ptr: "m_poGetterFunc (thiz w') = Some pg \<and> m_poClearFunc (thiz w') = Some pc"
    using run_keeps_accessor_pointers[OF _ r, of pg pc] live by (simp add: cache_live_def)
  have st: "stays pg gf w'" "stays pc cf w'"
    using run_stays[OF _ r] live by (simp_all add: cache_live_def)
  then show "cache_live pg pc gf cf w'" using ptr by (simp add: cache_live_def)
  show "GetGetterFunction w' = (Inr (Some gf), w')"
    using st(1) ptr by (auto simp: stays_def dest!: cached_fn_SomeD simp: GetGetterFunction_cached)
  show "GetClearFunction w' = (Inr (Some cf), w')"
    using st(2) ptr by (auto simp: stays_def dest!: cached_fn_SomeD simp: GetClearFunction_cached)
qed

lemma unaliased_world1: "unaliased 2 world1" "unaliased 3 world1"
  by (auto simp: unaliased_def world1_def heap_lookup_def split: if_splits)

lemma cache_live_world1: "cache_live 2 3 2 3 world1"
  using unaliased_world1
  by (simp add: cache_live_def stays_def cached_fn_def world1_def heap_lookup_def)

theorem accessors_cached_witness:
  "(\<exists>w1. GetGetterFunction world0 = (Inr (Some 1), w1)
         \<and> callee (objects w1 ! 1) = Some GettertCallback_fn
         \<and> cached_fn (m_poGetterFunc (thiz w1)) w1 = Some 1
         \<and> GetGetterFunction w1 = (Inr (Some 1), w1)) \<and>
   (\<exists>w1. GetClearFunction world0 = (Inr (Some 1), w1)
         \<and> callee (objects w1 ! 1) = Some ClearCallback_fn
         \<and> cached_fn (m_poClearFunc (thiz w1)) w1 = Some 1
         \<and> GetClearFunction w1 = (Inr (Some 1), w1)) \<and>
   GetGetterFunction world1 = (Inr (Some 2), world1) \<and>
   GetClearFunction world1 = (Inr (Some 3), world1) \<and>
   (\<exists>h1 w1 h2 w2 fg fc.
          ConstructorCallback (new_call [Object 0]) world0 = (Inr (Object h1), w1)
        \<and> ConstructorCallback (new_call [Object 0]) w1 = (Inr (Object h2), w2)
        \<and> h1 \<noteq> h2
        \<and> props (objects w2 ! h1) = [(''get'', Object fg), (''clear'', Object fc)]
        \<and> props (objects w2 ! h2) = [(''get'', Object fg), (''clear'', Object fc)]) \<and>
   cache_live 2 3 2 3 world1 \<and>
   run [Collect 1, CallClear 1, CallGet 1, Collect 1, Collect 0] world1 = Some (Inr world5) \<and>
   cache_live 2 3 2 3 world5 \<and>
   GetGetterFunction world5 = (Inr (Some 2), world5) \<and>
   GetClearFunction world5 = (Inr (Some 3), world5)"
proof -
  have "cache_live 2 3 2 3 world1
          \<and> run [Collect 1, CallClear 1, CallGet 1, Collect 1, Collect 0] world1 = Some (Inr world5)
        \<longrightarrow> cache_live 2 3 2 3 world5
          \<and> GetGetterFunction world5 = (Inr (Some 2), world5)
          \<and> GetClearFunction world5 = (Inr (Some 3), world5)"
    by (rule accessors_cached[THEN conjunct2, THEN conjunct2, THEN conjunct2, THEN conjunct2,
          THEN conjunct2])
  with cache_live_world1 run_world1 have later: "cache_live 2 3 2 3 world5
          \<and> GetGetterFunction world5 = (Inr (Some 2), world5)
          \<and> GetClearFunction world5 = (Inr (Some 3), world5)"
    by blast
  have first: "(\<exists>w1. GetGetterFunction world0 = (Inr (Some 1), w1)
         \<and> callee (objects w1 ! 1) = Some GettertCallback_fn
         \<and> cached_fn (m_poGetterFunc (thiz w1)) w1 = Some 1
         \<and> GetGetterFunction w1 = (Inr (Some 1), w1)) \<and>
   (\<exists>w1. GetClearFunction world0 = (Inr (Some 1), w1)
         \<and> callee (objects w1 ! 1) = Some ClearCallback_fn
         \<and> cached_fn (m_poClearFunc (thiz w1)) w1 = Some 1
         \<and> GetClearFunction w1 = (Inr (Some 1), w1)) \<and>
   GetGetterFunction world1 = (Inr (Some 2), world1) \<and>
   GetClearFunction world1 = (Inr (Some 3), world1) \<and>
   (\<exists>h1 w1 h2 w2 fg fc.
          ConstructorCallback (new_call [Object 0]) world0 = (Inr (Object h1), w1)
        \<and> ConstructorCallback (new_call [Object 0]) w1 = (Inr (Object h2), w2)
        \<and> h1 \<noteq> h2
        \<and> props (objects w2 ! h1) = [(''get'', Object fg), (''clear'', Object fc)]
        \<and> props (objects w2 ! h2) = [(''get'', Object fg), (''clear'', Object fc)])"
    using accessors_cached[of world0 2 "new_call [Object 0]" 0 "new_call [Object 0]" 0,
        THEN conjunct1]
      accessors_cached[of world0 2 "new_call [Object 0]" 0 "new_call [Object 0]" 0,
        THEN conjunct2, THEN conjunct1]
      accessors_cached[of world1 2, THEN conjunct2, THEN conjunct2, THEN conjunct1]
      accessors_cached[of world1 3, THEN conjunct2, THEN conjunct2, THEN conjunct2, THEN conjunct1]
      accessors_cached[of world0 2 "new_call [Object 0]" 0 "new_call [Object 0]" 0,
        THEN conjunct2, THEN conjunct2, THEN conjunct2, THEN conjunct2, THEN conjunct1]
    by (simp add: world0_def world1_def new_call_def cached_ok_def cached_fn_def heap_lookup_def)
  show ?thesis
    using first cache_live_world1 run_world1 later by blast
qed

end
